theory Spec2Isabelle
  imports Complex_Main "HOL-Library.Sublist" "HOL-Library.Log_Nat"
begin

section \<open>Exceptions\<close>

text \<open>
  The exceptions that the scraper raises, catches or lets through.  The classes of
  \<^verbatim>\<open>exceptions.py\<close> keep their names; \<open>MPError\<close> stands for an \<^verbatim>\<open>MPError\<close> that is
  not a \<^verbatim>\<open>ForbiddenError\<close> (the handlers always test \<^verbatim>\<open>ForbiddenError\<close> first).
  \<open>WebDriverException d\<close> is selenium's exception that is not a
  \<^verbatim>\<open>TimeoutException\<close>; \<open>d\<close> tells whether its message contains
  \<^verbatim>\<open>ERR_INTERNET_DISCONNECTED\<close>.  \<open>OtherException\<close> is any other subclass of
  \<^verbatim>\<open>Exception\<close> (\<^verbatim>\<open>KeyError\<close> of a missing JSON key, a JSON decoding error, ...).
\<close>

datatype exn =
    ForbiddenError
  | MPError
  | CategoriesError
  | ElementNotFound
  | TimeoutException
  | WebDriverException bool
  | KeyboardInterrupt
  | UnexpectedCategoryId int int
  | EmptyDataFrameError
  | IndexError
  | KeyError
  | TypeError
  | ValueError
  | OtherException

section \<open>Data model (\<^verbatim>\<open>listing.py\<close>)\<close>

text \<open>
  \<^verbatim>\<open>ListingDetails\<close> and \<^verbatim>\<open>Listing\<close> are dataclasses.  The two Python sets of
  \<^verbatim>\<open>ListingDetails\<close> are kept as lists in iteration order, since \<^verbatim>\<open>Listing\<close> stores
  \<^verbatim>\<open>tuple(types)\<close> and \<^verbatim>\<open>tuple(services)\<close>.
\<close>

record listing_details =
  d_description :: string
  d_ad_type :: string
  d_types :: "string list"
  d_services :: "string list"
  d_price_type :: string
  d_price_cents :: int
  d_view_count :: int
  d_favorited_count :: int
  d_listed_timestamp :: string

record listing =
  item_id :: string
  seller_id :: string
  parent_category_id :: int
  child_category_id :: int
  category_verticals :: "string list"
  ad_type :: string
  title :: string
  description :: string
  price_type :: string
  price_cents :: int
  types :: "string list"
  services :: "string list"
  listing_url :: string
  image_urls :: "string list"
  city_name :: string
  country_code :: string
  listed_timestamp :: string
  crawled_timestamp :: string
  view_count :: int
  favorited_count :: int

section \<open>Removing duplicate rows (\<^verbatim>\<open>utils.remove_duplicate_listings\<close>)\<close>

text \<open>
  A data frame is the list of its rows, in index order; a row carries the columns of
  \<^verbatim>\<open>Listing\<close>.  \<open>keep_last\<close> is what pandas documents for
  \<^verbatim>\<open>drop_duplicates(subset=["item_id"], keep="last")\<close>: a row is dropped when a later row
  has the same \<^verbatim>\<open>item_id\<close>; the rows kept stay in order (\<^verbatim>\<open>ignore_index=True\<close> only
  renumbers them).
\<close>

fun keep_last :: "listing list \<Rightarrow> listing list" where
  "keep_last [] = []"
| "keep_last (r # rs) =
     (if item_id r \<in> item_id ` set rs then keep_last rs else r # keep_last rs)"

text \<open>
  \<^verbatim>\<open>DataFrame.drop_duplicates\<close> returns the new frame, or \<^verbatim>\<open>None\<close> when it is asked to
  work in place.
\<close>

definition drop_duplicates :: "bool \<Rightarrow> listing list \<Rightarrow> listing list option" where
  "drop_duplicates inplace df = (if inplace then None else Some (keep_last df))"

definition remove_duplicate_listings :: "listing list \<Rightarrow> exn + listing list" where
  "remove_duplicate_listings df =
     (case drop_duplicates False df of
        Some df_no_dupes \<Rightarrow> Inr df_no_dupes
      | None \<Rightarrow> Inl EmptyDataFrameError)"

text \<open>The positions of a frame that hold the last row of their \<^verbatim>\<open>item_id\<close>.\<close>

definition last_positions :: "listing list \<Rightarrow> nat set" where
  "last_positions df =
     {i. i < length df \<and> (\<forall>j. i < j \<and> j < length df \<longrightarrow> item_id (df ! j) \<noteq> item_id (df ! i))}"

definition example_row :: "string \<Rightarrow> string \<Rightarrow> listing" where
  "example_row i t =
     \<lparr>item_id = i, seller_id = [], parent_category_id = 322, child_category_id = 322,
      category_verticals = [], ad_type = [], title = [], description = [],
      price_type = [], price_cents = 0, types = [], services = [], listing_url = [],
      image_urls = [], city_name = [], country_code = [], listed_timestamp = [],
      crawled_timestamp = t, view_count = 0, favorited_count = 0\<rparr>"

section \<open>Time arithmetic (\<^verbatim>\<open>utils.diff_hours\<close>, \<^verbatim>\<open>utils.get_utc_now\<close>)\<close>

subsection \<open>Python floats\<close>

text \<open>
  A Python float is an IEEE 754 binary64 number.  It is modelled by its exact value, a
  rational; every float operation is the exact operation followed by \<open>double\<close>, the
  rounding to the nearest number with a 53 bit significand, ties to the even
  significand.  Overflow and subnormal numbers are left out: the values below are
  numbers of hours between two datetimes, far inside the normal range.
\<close>

definition pow2 :: "int \<Rightarrow> rat" where
  "pow2 e = (if 0 \<le> e then 2 ^ nat e else 1 / 2 ^ nat (- e))"

definition round_half_even :: "rat \<Rightarrow> int" where
  "round_half_even x =
     (let f = \<lfloor>x\<rfloor>; r = x - of_int f
      in if r < 1 / 2 then f
         else if 1 / 2 < r then f + 1
         else if even f then f else f + 1)"

text \<open>The exponent \<open>e\<close> with \<open>2 ^ e \<le> \<bar>x\<bar> < 2 ^ (e + 1)\<close>, for \<open>x \<noteq> 0\<close>.\<close>

definition binade :: "rat \<Rightarrow> int" where
  "binade x =
     (let (a, b) = quotient_of \<bar>x\<bar>;
          e = bitlen a - bitlen b
      in if pow2 e \<le> \<bar>x\<bar> then e else e - 1)"

definition double :: "rat \<Rightarrow> rat" where
  "double x =
     (if x = 0 then 0
      else let q = pow2 (binade x - 52) in of_int (round_half_even (x / q)) * q)"

text \<open>\<^verbatim>\<open>float(n)\<close>, \<^verbatim>\<open>a / b\<close> on two ints (\<open>b \<noteq> 0\<close>) and \<^verbatim>\<open>x + y\<close> on two floats.\<close>

definition float_of_int :: "int \<Rightarrow> rat" where
  "float_of_int n = double (of_int n)"

definition int_truediv :: "int \<Rightarrow> int \<Rightarrow> rat" where
  "int_truediv a b = double (of_int a / of_int b)"

definition float_add :: "rat \<Rightarrow> rat \<Rightarrow> rat" where
  "float_add x y = double (x + y)"

subsection \<open>Datetimes and their difference\<close>

text \<open>
  The two kinds of Python value that reach \<^verbatim>\<open>diff_hours\<close> in this program: a
  \<^verbatim>\<open>datetime\<close>, given as the instant it denotes in microseconds since the epoch, and
  a \<^verbatim>\<open>str\<close>.
\<close>

datatype pyval = PyDatetime int | PyStr string

text \<open>A \<^verbatim>\<open>timedelta\<close> is normalised: \<open>0 \<le> seconds < 86400\<close>, \<open>0 \<le> microseconds < 10^6\<close>.\<close>

record timedelta =
  days :: int
  seconds :: int
  microseconds :: int

definition timedelta_of_microseconds :: "int \<Rightarrow> timedelta" where
  "timedelta_of_microseconds us =
     \<lparr>days = us div 86400000000,
      seconds = (us mod 86400000000) div 1000000,
      microseconds = us mod 1000000\<rparr>"

text \<open>
  \<^verbatim>\<open>last - first\<close>: defined between two datetimes; a \<^verbatim>\<open>str\<close> on either side
  raises \<^verbatim>\<open>TypeError\<close>.
\<close>

fun py_sub :: "pyval \<Rightarrow> pyval \<Rightarrow> exn + timedelta" where
  "py_sub (PyDatetime l) (PyDatetime f) = Inr (timedelta_of_microseconds (l - f))"
| "py_sub _ _ = Inl TypeError"

definition diff_hours :: "pyval \<Rightarrow> pyval \<Rightarrow> exn + rat" where
  "diff_hours first last' =
     (case py_sub last' first of
        Inl e \<Rightarrow> Inl e
      | Inr diff \<Rightarrow>
          Inr (float_add (float_of_int (days diff * 24)) (int_truediv (seconds diff) 3600)))"

text \<open>
  \<^verbatim>\<open>get_utc_now\<close> returns a \<^verbatim>\<open>str\<close>: the ISO 8601 text of the current instant (the
  library's \<^verbatim>\<open>isoformat\<close>, a parameter here) followed by \<^verbatim>\<open>"Z"\<close>.
\<close>

definition get_utc_now :: "(int \<Rightarrow> string) \<Rightarrow> int \<Rightarrow> string" where
  "get_utc_now isoformat now = isoformat now @ ''Z''"

section \<open>The items not to fetch again (\<^verbatim>\<open>__main__.main\<close>, dataset part)\<close>

text \<open>
  The loop over the rows of the stored frame.  \<open>fromisoformat\<close> is the library's parser
  of \<^verbatim>\<open>crawled_timestamp\<close> (it raises \<^verbatim>\<open>ValueError\<close> on a text it does not accept);
  \<open>now_datetime\<close> is the value that \<^verbatim>\<open>main\<close> passes as \<^verbatim>\<open>last\<close>; \<^verbatim>\<open>set.remove\<close>
  raises \<^verbatim>\<open>KeyError\<close> on an absent member.
\<close>

fun recrawl_loop ::
  "(string \<Rightarrow> exn + int) \<Rightarrow> pyval \<Rightarrow> rat \<Rightarrow> listing list \<Rightarrow> string set \<Rightarrow> exn + string set"
where
  "recrawl_loop fromisoformat now_datetime recrawl_hours [] item_ids = Inr item_ids"
| "recrawl_loop fromisoformat now_datetime recrawl_hours (row # rows) item_ids =
     (case fromisoformat (crawled_timestamp row) of
        Inl e \<Rightarrow> Inl e
      | Inr crawled_datetime \<Rightarrow>
          (case diff_hours (PyDatetime crawled_datetime) now_datetime of
             Inl e \<Rightarrow> Inl e
           | Inr diff_hours_now \<Rightarrow>
               if diff_hours_now \<ge> recrawl_hours then
                 (if item_id row \<in> item_ids
                  then recrawl_loop fromisoformat now_datetime recrawl_hours rows
                         (item_ids - {item_id row})
                  else Inl KeyError)
               else recrawl_loop fromisoformat now_datetime recrawl_hours rows item_ids))"

text \<open>
  The part of \<^verbatim>\<open>main\<close> that reads the stored frame: collect the ids, drop duplicate
  rows if there are any, then take out the ids crawled \<open>recrawl_hours\<close> or more ago.
  \<^verbatim>\<open>now_datetime = get_utc_now()\<close> is a \<^verbatim>\<open>str\<close>.
\<close>

definition main_item_ids ::
  "(int \<Rightarrow> string) \<Rightarrow> (string \<Rightarrow> exn + int) \<Rightarrow> int \<Rightarrow> rat \<Rightarrow> listing list \<Rightarrow> exn + string set"
where
  "main_item_ids isoformat fromisoformat now recrawl_hours listings_df =
     (let item_ids = set (map item_id listings_df);
          has_duplicates = \<not> distinct (map item_id listings_df)
      in case (if has_duplicates then remove_duplicate_listings listings_df
               else Inr listings_df) of
           Inl e \<Rightarrow> Inl e
         | Inr df \<Rightarrow>
             recrawl_loop fromisoformat (PyStr (get_utc_now isoformat now)) recrawl_hours
               df item_ids)"

text \<open>Concrete library functions for the examples below.\<close>

definition example_isoformat :: "int \<Rightarrow> string" where
  "example_isoformat t = ''2024-01-02T00:00:00+00:00''"

definition example_fromisoformat :: "string \<Rightarrow> exn + int" where
  "example_fromisoformat ts =
     (if ts = ''2024-01-01T00:00:00+00:00'' then Inr 1704067200000000 else Inl ValueError)"

section \<open>Categories (\<^verbatim>\<open>MpScraper.get_parent_categories\<close> and its caller)\<close>

record category =
  cat_id :: int
  cat_url :: string

text \<open>\<^verbatim>\<open>str.split(sep)\<close> for a separator of one character, and list indexing.\<close>

fun split_on :: "char \<Rightarrow> string \<Rightarrow> string list" where
  "split_on sep [] = [[]]"
| "split_on sep (ch # cs) =
     (if ch = sep then [] # split_on sep cs
      else (case split_on sep cs of
              [] \<Rightarrow> [[ch]]
            | w # ws \<Rightarrow> (ch # w) # ws))"

definition index :: "'a list \<Rightarrow> nat \<Rightarrow> exn + 'a" where
  "index xs i = (if i < length xs then Inr (xs ! i) else Inl IndexError)"

text \<open>
  A category \<^verbatim>\<open>li\<close> element of the home page, as far as the method looks at it: it has
  no navigation link (\<open>NoAnchor\<close>), or a link with or without an \<^verbatim>\<open>href\<close> attribute.
\<close>

datatype category_li = NoAnchor | Anchor "string option"

text \<open>
  The loop of \<^verbatim>\<open>get_parent_categories\<close>.  \<open>int_of_str\<close> is Python's \<^verbatim>\<open>int\<close> on a
  \<^verbatim>\<open>str\<close> (\<open>None\<close>: \<^verbatim>\<open>ValueError\<close>).
\<close>

fun parent_categories_loop ::
  "string \<Rightarrow> (string \<Rightarrow> int option) \<Rightarrow> category_li list \<Rightarrow> category set \<Rightarrow> exn + category set"
where
  "parent_categories_loop base_url int_of_str [] parent_categories = Inr parent_categories"
| "parent_categories_loop base_url int_of_str (NoAnchor # lis) parent_categories =
     Inl ElementNotFound"
| "parent_categories_loop base_url int_of_str (Anchor None # lis) parent_categories =
     Inl KeyError"
| "parent_categories_loop base_url int_of_str (Anchor (Some href) # lis) parent_categories =
     (let href_split = split_on CHR ''/'' href
      in case index href_split 2 of
           Inl e \<Rightarrow> Inl e
         | Inr id_text \<Rightarrow>
             (case int_of_str id_text of
                None \<Rightarrow> Inl ValueError
              | Some category_id \<Rightarrow>
                  (case index href_split 3 of
                     Inl e \<Rightarrow> Inl e
                   | Inr slug \<Rightarrow>
                       parent_categories_loop base_url int_of_str lis
                         (insert \<lparr>cat_id = category_id, cat_url = base_url @ ''/l/'' @ slug\<rparr>
                            parent_categories))))"

text \<open>
  \<open>home\<close> is what loading the home page gives: an exception of the driver, or the
  \<^verbatim>\<open>li\<close> elements of class \<^verbatim>\<open>CategoriesBlock-listItem\<close>.
\<close>

definition get_parent_categories ::
  "string \<Rightarrow> (string \<Rightarrow> int option) \<Rightarrow> exn + category_li list \<Rightarrow> exn + category set"
where
  "get_parent_categories base_url int_of_str home =
     (case home of
        Inl e \<Rightarrow> Inl e
      | Inr category_li_elems \<Rightarrow> parent_categories_loop base_url int_of_str category_li_elems {})"

text \<open>The lines of \<^verbatim>\<open>main\<close> that call it and look at the result.\<close>

definition main_parent_categories ::
  "string \<Rightarrow> (string \<Rightarrow> int option) \<Rightarrow> exn + category_li list \<Rightarrow> exn + category set"
where
  "main_parent_categories base_url int_of_str home =
     (case get_parent_categories base_url int_of_str home of
        Inl e \<Rightarrow> Inl e
      | Inr parent_categories \<Rightarrow>
          if parent_categories = {} then Inl CategoriesError else Inr parent_categories)"

definition example_int_of_str :: "string \<Rightarrow> int option" where
  "example_int_of_str s = (if s = ''322'' then Some 322 else None)"

section \<open>The crawl (\<^verbatim>\<open>MpScraper.get_listings\<close>)\<close>

subsection \<open>Constants and text helpers\<close>

definition MARTKPLAATS_BASE_URL :: string where
  "MARTKPLAATS_BASE_URL = ''https://marktplaats.nl''"

definition REQUEST_OPTS :: string where
  "REQUEST_OPTS = ''#sortBy:SORT_INDEX|sortOrder:DECREASING''"

definition MARKTPLAATS_ADVERTISEMENT_PREFIX :: char where
  "MARKTPLAATS_ADVERTISEMENT_PREFIX = CHR ''a''"

text \<open>\<^verbatim>\<open>str(n)\<close> for a page number.\<close>

fun str_of_nat :: "nat \<Rightarrow> string" where
  "str_of_nat n =
     (if n < 10 then [''0123456789'' ! n]
      else str_of_nat (n div 10) @ [''0123456789'' ! (n mod 10)])"

text \<open>
  \<^verbatim>\<open>format_text\<close>: \<^verbatim>\<open>" ".join(text.split())\<close>.  The white space of \<^verbatim>\<open>str.split()\<close> is
  restricted to the ASCII characters that \<^verbatim>\<open>str.isspace\<close> accepts.
\<close>

definition is_space :: "char \<Rightarrow> bool" where
  "is_space ch \<longleftrightarrow>
     ch \<in> set [CHR '' '', CHR 0x09, CHR 0x0A, CHR 0x0B, CHR 0x0C, CHR 0x0D,
                CHR 0x1C, CHR 0x1D, CHR 0x1E, CHR 0x1F]"

fun split_whitespace :: "string \<Rightarrow> string \<Rightarrow> string list" where
  "split_whitespace word [] = (if word = [] then [] else [word])"
| "split_whitespace word (ch # cs) =
     (if is_space ch then
        (if word = [] then split_whitespace [] cs else word # split_whitespace [] cs)
      else split_whitespace (word @ [ch]) cs)"

fun join :: "string \<Rightarrow> string list \<Rightarrow> string" where
  "join sep [] = []"
| "join sep [w] = w"
| "join sep (w # ws) = w @ sep @ join sep ws"

definition format_text :: "string \<Rightarrow> string" where
  "format_text text = join '' '' (split_whitespace [] text)"

definition get_url_with_options :: "string \<Rightarrow> nat \<Rightarrow> exn + string" where
  "get_url_with_options category_url page_number =
     (if category_url = [] then Inl IndexError
      else Inr ((if last category_url \<noteq> CHR ''/'' then category_url @ ''/'' else category_url)
                @ ''p/'' @ str_of_nat page_number @ ''/'' @ REQUEST_OPTS))"

subsection \<open>The site and the search results\<close>

text \<open>
  One entry of the \<^verbatim>\<open>listings\<close> array of a result page, with the keys that
  \<^verbatim>\<open>get_listings\<close> reads.  \<^verbatim>\<open>itemId\<close>, \<^verbatim>\<open>categoryId\<close> (already through \<^verbatim>\<open>int\<close>),
  \<^verbatim>\<open>title\<close> and \<^verbatim>\<open>vipUrl\<close> are taken to be present; the other keys are optional, as in
  the code.  \<open>pictures\<close> holds the \<^verbatim>\<open>extraExtraLargeUrl\<close> of each picture, \<open>location\<close>
  the country abbreviation and the optional city name.
\<close>

record raw_listing =
  itemId :: string
  categoryId :: int
  raw_title :: string
  vipUrl :: string
  pictures :: "string list option"
  location :: "(string \<times> string option) option"
  verticals :: "string list option"
  sellerId :: "string option"

text \<open>
  The site is outside the program.  It is given by what each request returns; \<open>tick\<close>,
  the number of page and listing requests made so far in the call, is an argument, so
  that a request that is tried again may get another answer.
  \<^item> \<open>listings_count_response\<close>: what \<^verbatim>\<open>listings_count(parent_category)\<close> returns or raises;
  \<^item> \<open>subcategories_response\<close>: what \<^verbatim>\<open>__get_subcategories\<close> returns (the set, in
    iteration order) or raises;
  \<^item> \<open>page_response tick url\<close>: loading and parsing a result page: the raw listings or
    the exception raised on the way;
  \<^item> \<open>details_response tick url\<close>: what \<^verbatim>\<open>__get_listing_details\<close> returns or raises;
  \<^item> \<open>clock tick\<close>: the instant \<^verbatim>\<open>datetime.now\<close> reads; \<open>isoformat\<close>: the library's
    \<^verbatim>\<open>isoformat\<close>.
\<close>

record site =
  listings_count_response :: "exn + int"
  subcategories_response :: "exn + category list"
  page_response :: "nat \<Rightarrow> string \<Rightarrow> exn + raw_listing list"
  details_response :: "nat \<Rightarrow> string \<Rightarrow> exn + listing_details"
  clock :: "nat \<Rightarrow> int"
  isoformat :: "int \<Rightarrow> string"

subsection \<open>Set objects\<close>

text \<open>
  \<^verbatim>\<open>existing_item_ids\<close> is a reference to a set object that the caller keeps.  The
  store maps addresses to set objects; addresses from \<open>next_free\<close> on are not in use.
\<close>

record heap =
  cells :: "nat \<Rightarrow> string set"
  next_free :: nat

definition set_new :: "heap \<Rightarrow> heap \<times> nat" where
  "set_new h =
     (h\<lparr>cells := (cells h)(next_free h := {}), next_free := Suc (next_free h)\<rparr>, next_free h)"

definition set_copy :: "heap \<Rightarrow> nat \<Rightarrow> heap \<times> nat" where
  "set_copy h a =
     (h\<lparr>cells := (cells h)(next_free h := cells h a), next_free := Suc (next_free h)\<rparr>,
      next_free h)"

definition set_add :: "heap \<Rightarrow> nat \<Rightarrow> string \<Rightarrow> heap" where
  "set_add h a x = h\<lparr>cells := (cells h)(a := insert x (cells h a))\<rparr>"

subsection \<open>State of a call\<close>

text \<open>
  The variables that the loops change: the list \<^verbatim>\<open>listings\<close>, the store (for the set
  \<^verbatim>\<open>item_ids\<close>), \<^verbatim>\<open>max_listings\<close>, and the number of requests made.  What stays fixed
  after the first lines of the method is in \<open>ctx\<close>: \<^verbatim>\<open>limit\<close> (after it has been capped),
  \<^verbatim>\<open>listings_count\<close>, the address of \<^verbatim>\<open>item_ids\<close>, the parent category, the site,
  and \<open>fuel\<close>, the number of rounds allowed to each \<^verbatim>\<open>while\<close> loop (neither loop has a
  bound in the code; a loop that uses its fuel up has not returned: \<open>None\<close>).
\<close>

record state =
  listings :: "listing list"
  heap :: heap
  max_listings :: int
  tick :: nat

record ctx =
  site :: site
  fuel :: nat
  parent_category :: category
  limit :: int
  listings_count :: int
  item_ids :: nat

text \<open>
  How a call ends: it returns the list, raises \<^verbatim>\<open>ListingsError\<close> or
  \<^verbatim>\<open>ListingsInterrupt\<close> carrying the list (the message is left out), or lets another
  exception through.
\<close>

datatype result =
    Return "listing list"
  | ListingsError "listing list"
  | ListingsInterrupt "listing list"
  | Propagate exn

subsection \<open>Fetching the details of one listing\<close>

text \<open>
  The inner \<^verbatim>\<open>while not got_details\<close> loop: \<^verbatim>\<open>ForbiddenError\<close> means sleep and try
  again; anything else ends the loop.  The result is the number of requests made so
  far and the details or the exception that left the loop.
\<close>

fun get_listing_details_retry ::
  "site \<Rightarrow> nat \<Rightarrow> nat \<Rightarrow> string \<Rightarrow> (nat \<times> (exn + listing_details)) option"
where
  "get_listing_details_retry st 0 t listing_url' = None"
| "get_listing_details_retry st (Suc n) t listing_url' =
     (if details_response st t listing_url' = Inl ForbiddenError
      then get_listing_details_retry st n (Suc t) listing_url'
      else Some (Suc t, details_response st t listing_url'))"

definition make_listing ::
  "category \<Rightarrow> int \<Rightarrow> raw_listing \<Rightarrow> listing_details \<Rightarrow> string \<Rightarrow> listing"
where
  "make_listing parent child_id res_listing details crawled =
     \<lparr>item_id = itemId res_listing,
      seller_id = (case sellerId res_listing of None \<Rightarrow> [] | Some x \<Rightarrow> x),
      parent_category_id = cat_id parent,
      child_category_id = child_id,
      category_verticals = (case verticals res_listing of None \<Rightarrow> [] | Some v \<Rightarrow> v),
      ad_type = d_ad_type details,
      title = format_text (raw_title res_listing),
      description = format_text (d_description details),
      price_type = d_price_type details,
      price_cents = d_price_cents details,
      types = d_types details,
      services = d_services details,
      listing_url = MARTKPLAATS_BASE_URL @ vipUrl res_listing,
      image_urls = (case pictures res_listing of None \<Rightarrow> [] | Some ps \<Rightarrow> ps),
      city_name =
        (case location res_listing of
           None \<Rightarrow> []
         | Some (country, city) \<Rightarrow> (case city of None \<Rightarrow> [] | Some x \<Rightarrow> x)),
      country_code =
        (case location res_listing of None \<Rightarrow> [] | Some (country, city) \<Rightarrow> country),
      listed_timestamp = d_listed_timestamp details,
      crawled_timestamp = crawled,
      view_count = d_view_count details,
      favorited_count = d_favorited_count details\<rparr>"

subsection \<open>One raw listing\<close>

text \<open>
  The body of \<^verbatim>\<open>for res_listing in res_listings\<close>.  \<open>LimitReached\<close> is the \<^verbatim>\<open>break\<close>,
  \<open>Continue\<close> goes on with the next raw listing (after a skip or after the listing was
  appended), \<open>Raises e\<close> is an exception that leaves the \<^verbatim>\<open>for\<close> loop.  The inner
  handlers turn an \<^verbatim>\<open>MPError\<close> (of any subclass) and \<^verbatim>\<open>ElementNotFound\<close> into
  \<^verbatim>\<open>listing_details is None\<close>.
\<close>

datatype item_action = Continue | LimitReached | Raises exn

definition process_res_listing ::
  "ctx \<Rightarrow> int \<Rightarrow> raw_listing \<Rightarrow> state \<Rightarrow> (item_action \<times> state) option"
where
  "process_res_listing c category_id res_listing s =
     (if int (length (listings s)) = limit c then Some (LimitReached, s)
      else case index (itemId res_listing) 0 of
        Inl e \<Rightarrow> Some (Raises e, s)
      | Inr first_char \<Rightarrow>
          if first_char = MARKTPLAATS_ADVERTISEMENT_PREFIX then Some (Continue, s)
          else if itemId res_listing \<in> cells (heap s) (item_ids c) then
            Some (Continue,
              if limit c = listings_count c then s\<lparr>max_listings := max_listings s - 1\<rparr>
              else s)
          else if categoryId res_listing \<noteq> category_id then
            Some (Raises (UnexpectedCategoryId (categoryId res_listing) category_id), s)
          else
            (case get_listing_details_retry (site c) (fuel c) (tick s)
                    (MARTKPLAATS_BASE_URL @ vipUrl res_listing) of
               None \<Rightarrow> None
             | Some (t, Inl e) \<Rightarrow>
                 if e = MPError \<or> e = CategoriesError \<or> e = ElementNotFound then
                   Some (Continue, s\<lparr>max_listings := max_listings s - 1, tick := t\<rparr>)
                 else Some (Raises e, s\<lparr>tick := t\<rparr>)
             | Some (t, Inr details) \<Rightarrow>
                 Some (Continue,
                   s\<lparr>listings := listings s @
                        [make_listing (parent_category c) category_id res_listing details
                           (get_utc_now (isoformat (site c)) (clock (site c) t))],
                     heap := set_add (heap s) (item_ids c) (itemId res_listing),
                     tick := t\<rparr>)))"

fun for_res_listings ::
  "ctx \<Rightarrow> int \<Rightarrow> raw_listing list \<Rightarrow> state \<Rightarrow> (exn option \<times> state) option"
where
  "for_res_listings c category_id [] s = Some (None, s)"
| "for_res_listings c category_id (res_listing # rest) s =
     (case process_res_listing c category_id res_listing s of
        None \<Rightarrow> None
      | Some (Continue, s') \<Rightarrow> for_res_listings c category_id rest s'
      | Some (LimitReached, s') \<Rightarrow> Some (None, s')
      | Some (Raises e, s') \<Rightarrow> Some (Some e, s'))"

subsection \<open>One round of the page loop\<close>

text \<open>
  The \<^verbatim>\<open>except\<close> clauses of the page loop, in their order: \<open>SamePage\<close> is
  \<^verbatim>\<open>continue\<close> (the page number stays), \<open>Abort\<close> leaves the method.
\<close>

datatype page_action = NextPage | SamePage | Break | Abort result

definition handle_exception :: "exn \<Rightarrow> listing list \<Rightarrow> page_action" where
  "handle_exception e ls =
     (case e of
        ForbiddenError \<Rightarrow> SamePage
      | MPError \<Rightarrow> SamePage
      | CategoriesError \<Rightarrow> SamePage
      | ElementNotFound \<Rightarrow> SamePage
      | TimeoutException \<Rightarrow> SamePage
      | WebDriverException disconnected \<Rightarrow>
          if disconnected then SamePage else Abort (Propagate (WebDriverException disconnected))
      | KeyboardInterrupt \<Rightarrow> Abort (ListingsInterrupt ls)
      | _ \<Rightarrow> Abort (ListingsError ls))"

definition page_iteration ::
  "ctx \<Rightarrow> category \<Rightarrow> nat \<Rightarrow> state \<Rightarrow> (page_action \<times> state) option"
where
  "page_iteration c cat current_page s =
     (case get_url_with_options (cat_url cat) current_page of
        Inl e \<Rightarrow> Some (handle_exception e (listings s), s)
      | Inr url_with_opts \<Rightarrow>
          (case page_response (site c) (tick s) url_with_opts of
             Inl e \<Rightarrow> Some (handle_exception e (listings s), s\<lparr>tick := Suc (tick s)\<rparr>)
           | Inr res_listings \<Rightarrow>
               if length res_listings = 0 then Some (Break, s\<lparr>tick := Suc (tick s)\<rparr>)
               else
                 (case for_res_listings c (cat_id cat) res_listings
                         (s\<lparr>tick := Suc (tick s)\<rparr>) of
                    None \<Rightarrow> None
                  | Some (None, s') \<Rightarrow> Some (NextPage, s')
                  | Some (Some e, s') \<Rightarrow> Some (handle_exception e (listings s'), s'))))"

subsection \<open>The loops over pages and categories\<close>

text \<open>
  \<^verbatim>\<open>while len(listings) < max_listings\<close>.  The result \<open>(None, s)\<close> means that the loop
  ended (its condition failed, or \<^verbatim>\<open>break\<close>) and the next category follows.
\<close>

fun page_loop ::
  "ctx \<Rightarrow> category \<Rightarrow> nat \<Rightarrow> nat \<Rightarrow> state \<Rightarrow> (result option \<times> state) option"
where
  "page_loop c cat 0 current_page s = None"
| "page_loop c cat (Suc n) current_page s =
     (if \<not> int (length (listings s)) < max_listings s then Some (None, s)
      else case page_iteration c cat current_page s of
        None \<Rightarrow> None
      | Some (NextPage, s') \<Rightarrow> page_loop c cat n (Suc current_page) s'
      | Some (SamePage, s') \<Rightarrow> page_loop c cat n current_page s'
      | Some (Break, s') \<Rightarrow> Some (None, s')
      | Some (Abort r, s') \<Rightarrow> Some (Some r, s'))"

fun for_categories ::
  "ctx \<Rightarrow> category list \<Rightarrow> state \<Rightarrow> (result option \<times> state) option"
where
  "for_categories c [] s = Some (None, s)"
| "for_categories c (cat # cats) s =
     (case page_loop c cat (fuel c) 1 s of
        None \<Rightarrow> None
      | Some (Some r, s') \<Rightarrow> Some (Some r, s')
      | Some (None, s') \<Rightarrow> for_categories c cats s')"

subsection \<open>The method\<close>

definition effective_limit :: "int \<Rightarrow> int \<Rightarrow> int" where
  "effective_limit limit' count = (if limit' > count \<or> limit' = 0 then count else limit')"

text \<open>
  \<open>get_listings_run\<close> is the method together with the final values of its variables;
  \<open>get_listings\<close> keeps what the caller can see: how the call ended, and the store.
  \<open>existing\<close> is the address of the caller's set, or \<open>None\<close>; \<open>call_state\<close> holds the
  variables as the first lines of the method leave them (before \<^verbatim>\<open>max_listings\<close> is
  assigned, its field holds the \<^verbatim>\<open>limit\<close> given).  An exception of
  \<^verbatim>\<open>listings_count\<close> is outside every \<^verbatim>\<open>try\<close>; one of \<^verbatim>\<open>__get_subcategories\<close> becomes
  \<^verbatim>\<open>ListingsError\<close> unless it is a \<^verbatim>\<open>KeyboardInterrupt\<close>.
\<close>

definition initial_heap :: "heap \<Rightarrow> nat option \<Rightarrow> heap \<times> nat" where
  "initial_heap h existing =
     (case existing of Some a \<Rightarrow> set_copy h a | None \<Rightarrow> set_new h)"

definition call_ctx ::
  "site \<Rightarrow> nat \<Rightarrow> heap \<Rightarrow> category \<Rightarrow> int \<Rightarrow> int \<Rightarrow> nat option \<Rightarrow> ctx"
where
  "call_ctx st n h parent limit' count existing =
     \<lparr>site = st, fuel = n, parent_category = parent,
      limit = effective_limit limit' count, listings_count = count,
      item_ids = snd (initial_heap h existing)\<rparr>"

definition call_state :: "heap \<Rightarrow> int \<Rightarrow> nat option \<Rightarrow> state" where
  "call_state h max_listings' existing =
     \<lparr>listings = [], heap = fst (initial_heap h existing),
      max_listings = max_listings', tick = 0\<rparr>"

definition get_listings_run ::
  "site \<Rightarrow> nat \<Rightarrow> heap \<Rightarrow> category \<Rightarrow> int \<Rightarrow> nat option \<Rightarrow> (result \<times> state) option"
where
  "get_listings_run st n h parent limit' existing =
     (case listings_count_response st of
        Inl e \<Rightarrow> Some (Propagate e, call_state h limit' existing)
      | Inr count \<Rightarrow>
          (case subcategories_response st of
             Inl e \<Rightarrow>
               Some (if e = KeyboardInterrupt then Propagate e else ListingsError [],
                     call_state h (effective_limit limit' count) existing)
           | Inr subcategories \<Rightarrow>
               (case for_categories (call_ctx st n h parent limit' count existing)
                       (if length subcategories > 0 then subcategories else [parent])
                       (call_state h (effective_limit limit' count) existing) of
                  None \<Rightarrow> None
                | Some (Some r, s) \<Rightarrow> Some (r, s)
                | Some (None, s) \<Rightarrow> Some (Return (listings s), s))))"

definition get_listings ::
  "site \<Rightarrow> nat \<Rightarrow> heap \<Rightarrow> category \<Rightarrow> int \<Rightarrow> nat option \<Rightarrow> (result \<times> heap) option"
where
  "get_listings st n h parent limit' existing =
     map_option (\<lambda>(r, s). (r, heap s)) (get_listings_run st n h parent limit' existing)"

subsection \<open>What a call may do to its variables\<close>

text \<open>
  \<open>extends c s s'\<close>: from \<open>s\<close> to \<open>s'\<close> listings were only appended, their ids are
  pairwise distinct and were not in the set \<^verbatim>\<open>item_ids\<close> before, the set gained exactly
  these ids, no other set object changed and none was allocated, \<^verbatim>\<open>max_listings\<close> did
  not grow, and the list did not grow beyond \<^verbatim>\<open>limit\<close> if it was within it.
\<close>

definition extends :: "ctx \<Rightarrow> state \<Rightarrow> state \<Rightarrow> bool" where
  "extends c s s' \<longleftrightarrow>
     (\<exists>new. listings s' = listings s @ new
        \<and> distinct (map item_id new)
        \<and> set (map item_id new) \<inter> cells (heap s) (item_ids c) = {}
        \<and> cells (heap s') (item_ids c) = cells (heap s) (item_ids c) \<union> set (map item_id new))
     \<and> (\<forall>a. a \<noteq> item_ids c \<longrightarrow> cells (heap s') a = cells (heap s) a)
     \<and> next_free (heap s') = next_free (heap s)
     \<and> max_listings s' \<le> max_listings s
     \<and> (int (length (listings s)) \<le> limit c \<longrightarrow> int (length (listings s')) \<le> limit c)"

subsection \<open>Example sites\<close>

definition example_details :: listing_details where
  "example_details =
     \<lparr>d_description = ''a  b'', d_ad_type = ''x'', d_types = [], d_services = [],
      d_price_type = ''FIXED'', d_price_cents = 100, d_view_count = 1,
      d_favorited_count = 0, d_listed_timestamp = ''t''\<rparr>"

definition example_raw :: "string \<Rightarrow> int \<Rightarrow> raw_listing" where
  "example_raw i cid =
     \<lparr>itemId = i, categoryId = cid, raw_title = ''title'', vipUrl = ''/v/'' @ i,
      pictures = None, location = None, verticals = None, sellerId = None\<rparr>"

definition example_parent :: category where
  "example_parent =
     \<lparr>cat_id = 322, cat_url = ''https://marktplaats.nl/l/computers-en-software/''\<rparr>"

text \<open>A store in which the caller's set, at address 0, is \<open>{m9}\<close>.\<close>

definition example_heap :: heap where
  "example_heap = \<lparr>cells = (\<lambda>a. if a = 0 then {''m9''} else {}), next_free = 1\<rparr>"

definition page_of_url :: "raw_listing list list \<Rightarrow> string \<Rightarrow> raw_listing list" where
  "page_of_url pages u =
     (case find (\<lambda>k. get_url_with_options (cat_url example_parent) (Suc k) = Inr u)
             [0 ..< length pages] of
        Some k \<Rightarrow> pages ! k
      | None \<Rightarrow> [])"

text \<open>
  A site that reports \<open>count\<close> listings and no subcategory, serves the given pages of
  the example category (and empty pages after them), and answers every request for
  details, except that the listings whose ids are in \<open>failing\<close> give an \<^verbatim>\<open>MPError\<close>.
\<close>

definition example_site :: "int \<Rightarrow> raw_listing list list \<Rightarrow> string list \<Rightarrow> site" where
  "example_site count pages failing =
     \<lparr>listings_count_response = Inr count,
      subcategories_response = Inr [],
      page_response = (\<lambda>t u. Inr (page_of_url pages u)),
      details_response =
        (\<lambda>t u. if u \<in> set (map (\<lambda>i. MARTKPLAATS_BASE_URL @ ''/v/'' @ i) failing)
               then Inl MPError else Inr example_details),
      clock = (\<lambda>t. 1704067200000000 + int t),
      isoformat = example_isoformat\<rparr>"

text \<open>
  Two sites with one result page: on the first the second listing reports another
  category; on the second the details of the first listing cannot be fetched.
\<close>

definition mismatch_site :: site where
  "mismatch_site = example_site 10 [[example_raw ''m1'' 322, example_raw ''m2'' 321]] []"


text \<open>
  A raw listing whose id the caller already has; the fixed part and the first state of
  a call without a cap (\<^verbatim>\<open>limit = 0\<close>) and of a call with \<^verbatim>\<open>limit = 2\<close>, on a
  category of 10 listings; the address of the first result page; a site whose second
  listing has an empty id.
\<close>

definition known_raw :: raw_listing where
  "known_raw = example_raw ''m9'' 322"

definition uncapped_ctx :: ctx where
  "uncapped_ctx = call_ctx (example_site 10 [[known_raw]] []) 5 example_heap example_parent 0 10 (Some 0)"

definition capped_ctx :: ctx where
  "capped_ctx = call_ctx (example_site 10 [[known_raw]] []) 5 example_heap example_parent 2 10 (Some 0)"

definition uncapped_state :: state where
  "uncapped_state = call_state example_heap 10 (Some 0)"

definition capped_state :: state where
  "capped_state = call_state example_heap 2 (Some 0)"

definition example_page_url :: string where
  "example_page_url =
     ''https://marktplaats.nl/l/computers-en-software/p/1/#sortBy:SORT_INDEX|sortOrder:DECREASING''"

definition mismatch_ctx :: ctx where
  "mismatch_ctx = call_ctx mismatch_site 5 example_heap example_parent 2 10 (Some 0)"

definition empty_id_site :: site where
  "empty_id_site = example_site 10 [[example_raw ''m1'' 322, example_raw [] 322]] []"

definition empty_id_ctx :: ctx where
  "empty_id_ctx = call_ctx empty_id_site 5 example_heap example_parent 2 10 (Some 0)"

subsection \<open>Sites that answer every request\<close>




text \<open>
  The distinct ids that \<open>rs\<close> offer beyond \<open>known\<close>, not counting sponsored listings;
  and the first \<open>k\<close> raw listings of \<open>rs\<close> that are not sponsored and whose id is
  neither in \<open>known\<close> nor met before.
\<close>

definition fresh_ids :: "string set \<Rightarrow> raw_listing list \<Rightarrow> string set" where
  "fresh_ids known rs =
     itemId ` set (filter (\<lambda>r. hd (itemId r) \<noteq> MARKTPLAATS_ADVERTISEMENT_PREFIX
                              \<and> itemId r \<notin> known) rs)"

fun take_fresh :: "nat \<Rightarrow> string set \<Rightarrow> raw_listing list \<Rightarrow> raw_listing list" where
  "take_fresh 0 known rs = []"
| "take_fresh (Suc k) known [] = []"
| "take_fresh (Suc k) known (r # rs) =
     (if hd (itemId r) = MARKTPLAATS_ADVERTISEMENT_PREFIX \<or> itemId r \<in> known
      then take_fresh (Suc k) known rs
      else r # take_fresh k (insert (itemId r) known) rs)"








section \<open>Properties of \<^verbatim>\<open>remove_duplicate_listings\<close>\<close>

lemma keep_last_ids: "item_id ` set (keep_last df) = item_id ` set df"
  by (induction df) auto

lemma keep_last_distinct: "distinct (map item_id (keep_last df))"
proof (induction df)
  case Nil
  show ?case by simp
next
  case (Cons r rs)
  show ?case
  proof (cases "item_id r \<in> item_id ` set rs")
    case True
    with Cons show ?thesis by simp
  next
    case False
    then have "item_id r \<notin> item_id ` set (keep_last rs)"
      unfolding keep_last_ids .
    with False Cons show ?thesis by simp
  qed
qed

lemma keep_last_fixpoint: "distinct (map item_id df) \<Longrightarrow> keep_last df = df"
  by (induction df) auto

lemma keep_last_subseq: "subseq (keep_last df) df"
  by (induction df) auto

lemma keep_last_is_last:
  "r \<in> set (keep_last df) \<Longrightarrow> r = last (filter (\<lambda>x. item_id x = item_id r) df)"
proof (induction df)
  case Nil
  then show ?case by simp
next
  case (Cons a rs)
  show ?case
  proof (cases "r \<in> set (keep_last rs)")
    case True
    then have in_rs: "item_id r \<in> item_id ` set rs"
      using keep_last_ids [of rs] by blast
    then have "filter (\<lambda>x. item_id x = item_id r) rs \<noteq> []"
      by (auto simp: filter_empty_conv)
    with Cons.IH [OF True] show ?thesis by simp
  next
    case False
    with Cons.prems have ra: "r = a" and fresh: "item_id a \<notin> item_id ` set rs"
      by (auto split: if_splits)
    from fresh have "filter (\<lambda>x. item_id x = item_id a) rs = []"
      unfolding filter_empty_conv image_iff by metis
    with ra show ?thesis by simp
  qed
qed

lemma last_positions_Cons_0:
  "0 \<in> last_positions (r # rs) \<longleftrightarrow> item_id r \<notin> item_id ` set rs"
proof
  assume a: "0 \<in> last_positions (r # rs)"
  show "item_id r \<notin> item_id ` set rs"
  proof
    assume "item_id r \<in> item_id ` set rs"
    then obtain k where k: "k < length rs" "item_id (rs ! k) = item_id r"
      by (auto simp: in_set_conv_nth)
    from a have "item_id ((r # rs) ! Suc k) \<noteq> item_id ((r # rs) ! 0)"
      using k(1) unfolding last_positions_def by fastforce
    with k(2) show False by simp
  qed
next
  assume b: "item_id r \<notin> item_id ` set rs"
  show "0 \<in> last_positions (r # rs)"
    unfolding last_positions_def
  proof (intro CollectI conjI allI impI)
    show "0 < length (r # rs)" by simp
  next
    fix j assume j: "0 < j \<and> j < length (r # rs)"
    then obtain k where jk: "j = Suc k" and "k < length rs"
      by (cases j) auto
    then have "rs ! k \<in> set rs" by simp
    with b have "item_id (rs ! k) \<noteq> item_id r"
      unfolding image_iff by metis
    with jk show "item_id ((r # rs) ! j) \<noteq> item_id ((r # rs) ! 0)" by simp
  qed
qed

lemma last_positions_Cons_Suc:
  "{j. Suc j \<in> last_positions (r # rs)} = last_positions rs"
proof (intro set_eqI iffI)
  fix i assume "i \<in> {j. Suc j \<in> last_positions (r # rs)}"
  then have a: "Suc i \<in> last_positions (r # rs)" by simp
  show "i \<in> last_positions rs"
    unfolding last_positions_def
  proof (intro CollectI conjI allI impI)
    from a show "i < length rs" by (simp add: last_positions_def)
  next
    fix j assume j: "i < j \<and> j < length rs"
    from a have "\<forall>k. Suc i < k \<and> k < length (r # rs) \<longrightarrow>
        item_id ((r # rs) ! k) \<noteq> item_id ((r # rs) ! Suc i)"
      by (simp add: last_positions_def)
    then have "item_id ((r # rs) ! Suc j) \<noteq> item_id ((r # rs) ! Suc i)"
      using j by (metis Suc_less_eq length_Cons)
    then show "item_id (rs ! j) \<noteq> item_id (rs ! i)" by simp
  qed
next
  fix i assume b: "i \<in> last_positions rs"
  have "Suc i \<in> last_positions (r # rs)"
    unfolding last_positions_def
  proof (intro CollectI conjI allI impI)
    from b show "Suc i < length (r # rs)" by (simp add: last_positions_def)
  next
    fix j assume j: "Suc i < j \<and> j < length (r # rs)"
    then obtain k where jk: "j = Suc k" and k: "i < k \<and> k < length rs"
      by (cases j) auto
    from b k have "item_id (rs ! k) \<noteq> item_id (rs ! i)"
      by (simp add: last_positions_def)
    with jk show "item_id ((r # rs) ! j) \<noteq> item_id ((r # rs) ! Suc i)" by simp
  qed
  then show "i \<in> {j. Suc j \<in> last_positions (r # rs)}" by simp
qed

lemma keep_last_nths: "keep_last df = nths df (last_positions df)"
proof (induction df)
  case Nil
  show ?case by simp
next
  case (Cons r rs)
  show ?case
    by (simp add: nths_Cons last_positions_Cons_0 last_positions_Cons_Suc Cons.IH
        del: image_eqI)
qed

text \<open>
  Claim C6.  Removing duplicates never fails; applied to its own result it changes
  nothing; the result has one row for each \<^verbatim>\<open>item_id\<close> of the input and no other; the
  rows kept are exactly those at the last position of their \<^verbatim>\<open>item_id\<close>, in input order
  (so each row kept is the last input row with its \<^verbatim>\<open>item_id\<close>, and the result is a
  subsequence of the input).
\<close>

theorem remove_duplicate_listings_keeps_last:
  "\<exists>d. remove_duplicate_listings X = Inr d
     \<and> remove_duplicate_listings d = Inr d
     \<and> distinct (map item_id d)
     \<and> item_id ` set d = item_id ` set X
     \<and> d = nths X (last_positions X)
     \<and> (\<forall>r \<in> set d. r = last (filter (\<lambda>x. item_id x = item_id r) X))
     \<and> subseq d X"
proof (intro exI conjI)
  show "remove_duplicate_listings X = Inr (keep_last X)"
    by (simp add: remove_duplicate_listings_def drop_duplicates_def)
  show "remove_duplicate_listings (keep_last X) = Inr (keep_last X)"
    by (simp add: remove_duplicate_listings_def drop_duplicates_def
        keep_last_fixpoint keep_last_distinct)
  show "distinct (map item_id (keep_last X))" by (rule keep_last_distinct)
  show "item_id ` set (keep_last X) = item_id ` set X" by (rule keep_last_ids)
  show "keep_last X = nths X (last_positions X)" by (rule keep_last_nths)
  show "\<forall>r \<in> set (keep_last X). r = last (filter (\<lambda>x. item_id x = item_id r) X)"
    using keep_last_is_last by blast
  show "subseq (keep_last X) X" by (rule keep_last_subseq)
qed

theorem remove_duplicate_listings_keeps_last_witness:
  "remove_duplicate_listings
     [example_row ''m1'' ''t1'', example_row ''m2'' ''t2'', example_row ''m1'' ''t3'']
   = Inr [example_row ''m2'' ''t2'', example_row ''m1'' ''t3'']
   \<and> example_row ''m1'' ''t3'' = last (filter (\<lambda>x. item_id x = ''m1'')
        [example_row ''m1'' ''t1'', example_row ''m2'' ''t2'', example_row ''m1'' ''t3''])"
  using remove_duplicate_listings_keeps_last
    [of "[example_row ''m1'' ''t1'', example_row ''m2'' ''t2'', example_row ''m1'' ''t3'']"]
  by (simp add: remove_duplicate_listings_def drop_duplicates_def example_row_def)

section \<open>Properties of \<^verbatim>\<open>diff_hours\<close>\<close>

lemma diff_hours_delta:
  "diff_hours (PyDatetime t) (PyDatetime (t + d)) =
     Inr (float_add (float_of_int (d div 86400000000 * 24))
            (int_truediv (d mod 86400000000 div 1000000) 3600))"
  by (simp add: diff_hours_def timedelta_of_microseconds_def)

text \<open>The six offsets of the repository's test, in microseconds, evaluated.\<close>

lemma hours_1800:
  "float_add (float_of_int (1800000000 div 86400000000 * 24))
     (int_truediv (1800000000 mod 86400000000 div 1000000) 3600) = 1 / 2"
  by code_simp

lemma hours_3600:
  "float_add (float_of_int (3600000000 div 86400000000 * 24))
     (int_truediv (3600000000 mod 86400000000 div 1000000) 3600) = 1"
  by code_simp

lemma hours_9000:
  "float_add (float_of_int (9000000000 div 86400000000 * 24))
     (int_truediv (9000000000 mod 86400000000 div 1000000) 3600) = 5 / 2"
  by code_simp

lemma hours_14364:
  "float_add (float_of_int (14364000000 div 86400000000 * 24))
     (int_truediv (14364000000 mod 86400000000 div 1000000) 3600) = double (399 / 100)"
  by code_simp

lemma hours_15588:
  "float_add (float_of_int (15588000000 div 86400000000 * 24))
     (int_truediv (15588000000 mod 86400000000 div 1000000) 3600) = double (433 / 100)"
  by code_simp

lemma hours_18000:
  "float_add (float_of_int (18000000000 div 86400000000 * 24))
     (int_truediv (18000000000 mod 86400000000 div 1000000) 3600) = 5"
  by code_simp

text \<open>
  The floats that the literals \<^verbatim>\<open>0.5\<close>, \<^verbatim>\<open>1.0\<close>, \<^verbatim>\<open>2.5\<close>, \<^verbatim>\<open>5.00\<close>, \<^verbatim>\<open>3.99\<close> and
  \<^verbatim>\<open>4.33\<close> denote; the first four are exact.
\<close>

lemma double_literals:
  "double (1 / 2) = 1 / 2" "double 1 = 1" "double (5 / 2) = 5 / 2" "double 5 = 5"
  "double (399 / 100) = 2246170314151035 / 562949953421312"
  "double (433 / 100) = 2437573298314281 / 562949953421312"
  by code_simp+

text \<open>
  Claim C8.  On two datetimes \<^verbatim>\<open>diff_hours\<close> returns the float
  \<open>days * 24 + seconds / 3600\<close>, where \<open>days\<close> and \<open>seconds\<close> are the fields of the
  normalised difference (the microseconds field is not used), each operation rounded
  as floats are.  For two datetimes 0.5, 1, 2.5, 3.99, 4.33 or 5 hours apart, whatever
  the first one is, the result is the float that the offset's literal denotes; for 2.5
  hours that float is exactly \<open>5 / 2\<close>.
\<close>

theorem diff_hours_offsets:
  "diff_hours (PyDatetime first) (PyDatetime last') =
     Inr (double (double (of_int ((last' - first) div 86400000000 * 24))
            + double (of_int ((last' - first) mod 86400000000 div 1000000) / 3600)))
   \<and> diff_hours (PyDatetime t) (PyDatetime (t + 1800000000)) = Inr (double (1 / 2))
   \<and> diff_hours (PyDatetime t) (PyDatetime (t + 3600000000)) = Inr (double 1)
   \<and> diff_hours (PyDatetime t) (PyDatetime (t + 9000000000)) = Inr (double (5 / 2))
   \<and> diff_hours (PyDatetime t) (PyDatetime (t + 14364000000)) = Inr (double (399 / 100))
   \<and> diff_hours (PyDatetime t) (PyDatetime (t + 15588000000)) = Inr (double (433 / 100))
   \<and> diff_hours (PyDatetime t) (PyDatetime (t + 18000000000)) = Inr (double 5)
   \<and> double (5 / 2) = 5 / 2"
proof (intro conjI)
  show "diff_hours (PyDatetime first) (PyDatetime last') =
     Inr (double (double (of_int ((last' - first) div 86400000000 * 24))
            + double (of_int ((last' - first) mod 86400000000 div 1000000) / 3600)))"
    by (simp add: diff_hours_def timedelta_of_microseconds_def float_add_def
        float_of_int_def int_truediv_def)
  show "diff_hours (PyDatetime t) (PyDatetime (t + 1800000000)) = Inr (double (1 / 2))"
    by (simp only: diff_hours_delta hours_1800 double_literals)
  show "diff_hours (PyDatetime t) (PyDatetime (t + 3600000000)) = Inr (double 1)"
    by (simp only: diff_hours_delta hours_3600 double_literals)
  show "diff_hours (PyDatetime t) (PyDatetime (t + 9000000000)) = Inr (double (5 / 2))"
    by (simp only: diff_hours_delta hours_9000 double_literals)
  show "diff_hours (PyDatetime t) (PyDatetime (t + 14364000000)) = Inr (double (399 / 100))"
    by (simp only: diff_hours_delta hours_14364)
  show "diff_hours (PyDatetime t) (PyDatetime (t + 15588000000)) = Inr (double (433 / 100))"
    by (simp only: diff_hours_delta hours_15588)
  show "diff_hours (PyDatetime t) (PyDatetime (t + 18000000000)) = Inr (double 5)"
    by (simp only: diff_hours_delta hours_18000 double_literals)
  show "double (5 / 2) = (5 / 2 :: rat)"
    by (rule double_literals)
qed

section \<open>Properties of the dataset part of \<^verbatim>\<open>main\<close>\<close>

lemma keep_last_nonempty: "df \<noteq> [] \<Longrightarrow> keep_last df \<noteq> []"
proof -
  assume "df \<noteq> []"
  then have "item_id ` set df \<noteq> {}" by simp
  then have "item_id ` set (keep_last df) \<noteq> {}" unfolding keep_last_ids .
  then show ?thesis by auto
qed

lemma diff_hours_str: "diff_hours first (PyStr s) = Inl TypeError"
  by (simp add: diff_hours_def)

lemma recrawl_loop_str:
  "\<exists>e. recrawl_loop fromisoformat (PyStr s) recrawl_hours (row # rows) ids = Inl e"
  by (cases "fromisoformat (crawled_timestamp row)") (simp_all add: diff_hours_str)

lemma main_item_ids_raises:
  "\<exists>e. main_item_ids isofmt fromisoformat now recrawl_hours (row # rows) = Inl e"
proof (cases "distinct (map item_id (row # rows))")
  case True
  then show ?thesis
    using recrawl_loop_str [of fromisoformat _ recrawl_hours row rows]
    by (simp add: main_item_ids_def Let_def del: recrawl_loop.simps)
next
  case False
  obtain r rs where k: "keep_last (row # rows) = r # rs"
    using keep_last_nonempty [of "row # rows"] by (cases "keep_last (row # rows)") auto
  from False show ?thesis
    using recrawl_loop_str [of fromisoformat _ recrawl_hours r rs]
    by (simp add: main_item_ids_def Let_def remove_duplicate_listings_def drop_duplicates_def k
        del: recrawl_loop.simps keep_last.simps)
qed

text \<open>
  Claim C5.  A stored frame of one row, crawled exactly 24 hours before now, with
  \<^verbatim>\<open>recrawl_hours = 24\<close>.  The comparison \<open>diff_hours_now \<ge> recrawl_hours\<close> would take
  the id out of the set if \<^verbatim>\<open>diff_hours\<close> were given a datetime for now (second
  equation); \<^verbatim>\<open>main\<close> gives it the \<^verbatim>\<open>str\<close> that \<^verbatim>\<open>get_utc_now\<close> returns, and the
  subtraction raises \<^verbatim>\<open>TypeError\<close> (first equation).  By \<open>main_item_ids_raises\<close> the
  same happens for every stored frame that has a row.
\<close>

theorem main_item_ids_type_error:
  "main_item_ids example_isoformat example_fromisoformat 1704153600000000 24
     [example_row ''m1'' ''2024-01-01T00:00:00+00:00''] = Inl TypeError
   \<and> recrawl_loop example_fromisoformat (PyDatetime 1704153600000000) 24
     [example_row ''m1'' ''2024-01-01T00:00:00+00:00''] {''m1''} = Inr {}"
proof
  show "main_item_ids example_isoformat example_fromisoformat 1704153600000000 24
     [example_row ''m1'' ''2024-01-01T00:00:00+00:00''] = Inl TypeError"
    by (simp add: main_item_ids_def example_row_def example_fromisoformat_def diff_hours_str)
  have d: "diff_hours (PyDatetime 1704067200000000) (PyDatetime 1704153600000000) = Inr 24"
    unfolding diff_hours_def by code_simp
  show "recrawl_loop example_fromisoformat (PyDatetime 1704153600000000) 24
     [example_row ''m1'' ''2024-01-01T00:00:00+00:00''] {''m1''} = Inr {}"
    by (simp add: example_row_def example_fromisoformat_def d)
qed

section \<open>Properties of category discovery\<close>

lemma parent_categories_loop_grows:
  "parent_categories_loop b p lis acc = Inr S \<Longrightarrow> acc \<subseteq> S \<and> (lis \<noteq> [] \<longrightarrow> S \<noteq> {})"
proof (induction b p lis acc rule: parent_categories_loop.induct)
  case (1 b p acc)
  then show ?case by simp
next
  case (2 b p lis acc)
  then show ?case by simp
next
  case (3 b p lis acc)
  then show ?case by simp
next
  case (4 b p href lis acc)
  then show ?case
    by (auto simp: Let_def split: sum.splits option.splits)
qed

text \<open>
  Claim C7, as stated, fails: on a home page without category elements
  \<^verbatim>\<open>get_parent_categories\<close> returns the empty set and raises nothing.
\<close>

theorem get_parent_categories_empty_counterexample:
  "get_parent_categories ''https://marktplaats.nl'' example_int_of_str (Inr []) = Inr {}"
  by (simp add: get_parent_categories_def)

text \<open>
  Claim C7, amended.  \<^verbatim>\<open>get_parent_categories\<close> returns the empty set exactly when
  the home page has no category element; its caller \<^verbatim>\<open>main\<close> then raises
  \<^verbatim>\<open>CategoriesError\<close>, and never goes on with an empty set of categories.
\<close>

theorem main_parent_categories_empty:
  "get_parent_categories base_url int_of_str (Inr []) = Inr {}
   \<and> (get_parent_categories base_url int_of_str home = Inr {} \<longleftrightarrow> home = Inr [])
   \<and> main_parent_categories base_url int_of_str (Inr []) = Inl CategoriesError
   \<and> main_parent_categories base_url int_of_str home \<noteq> Inr {}"
proof (intro conjI)
  show e: "get_parent_categories base_url int_of_str (Inr []) = Inr {}"
    by (simp add: get_parent_categories_def)
  show "get_parent_categories base_url int_of_str home = Inr {} \<longleftrightarrow> home = Inr []"
  proof
    assume a: "get_parent_categories base_url int_of_str home = Inr {}"
    then obtain lis where h: "home = Inr lis"
      by (cases home) (auto simp: get_parent_categories_def)
    with a have "parent_categories_loop base_url int_of_str lis {} = Inr {}"
      by (simp add: get_parent_categories_def)
    from parent_categories_loop_grows [OF this] have "lis = []" by blast
    with h show "home = Inr []" by simp
  next
    assume "home = Inr []"
    with e show "get_parent_categories base_url int_of_str home = Inr {}" by simp
  qed
  show "main_parent_categories base_url int_of_str (Inr []) = Inl CategoriesError"
    by (simp add: main_parent_categories_def get_parent_categories_def)
  show "main_parent_categories base_url int_of_str home \<noteq> Inr {}"
    by (simp add: main_parent_categories_def split: sum.splits)
qed

theorem main_parent_categories_empty_witness:
  "main_parent_categories ''https://marktplaats.nl'' example_int_of_str (Inr []) = Inl CategoriesError
   \<and> main_parent_categories ''https://marktplaats.nl'' example_int_of_str
        (Inr [Anchor (Some ''/cp/322/computers-en-software/'')])
      = Inr {\<lparr>cat_id = 322, cat_url = ''https://marktplaats.nl/l/computers-en-software''\<rparr>}"
  using main_parent_categories_empty [of "''https://marktplaats.nl''" example_int_of_str "Inr []"]
  by (simp add: main_parent_categories_def get_parent_categories_def index_def
      example_int_of_str_def)

section \<open>Properties of the crawl: what every call preserves\<close>

lemma extends_refl: "extends c s s"
  by (simp add: extends_def)

lemma extends_trans:
  assumes "extends c s s1" and "extends c s1 s2"
  shows "extends c s s2"
proof -
  from assms(1) obtain n1 where n1:
    "listings s1 = listings s @ n1" "distinct (map item_id n1)"
    "set (map item_id n1) \<inter> cells (heap s) (item_ids c) = {}"
    "cells (heap s1) (item_ids c) = cells (heap s) (item_ids c) \<union> set (map item_id n1)"
    unfolding extends_def by blast
  from assms(2) obtain n2 where n2:
    "listings s2 = listings s1 @ n2" "distinct (map item_id n2)"
    "set (map item_id n2) \<inter> cells (heap s1) (item_ids c) = {}"
    "cells (heap s2) (item_ids c) = cells (heap s1) (item_ids c) \<union> set (map item_id n2)"
    unfolding extends_def by blast
  have a: "listings s2 = listings s @ (n1 @ n2)"
    using n1(1) n2(1) by simp
  have b: "distinct (map item_id (n1 @ n2))"
    using n1(2) n2(2) n2(3) n1(4) by auto
  have d: "set (map item_id (n1 @ n2)) \<inter> cells (heap s) (item_ids c) = {}"
    using n1(3) n2(3) n1(4) by auto
  have e: "cells (heap s2) (item_ids c) = cells (heap s) (item_ids c) \<union> set (map item_id (n1 @ n2))"
    using n1(4) n2(4) by auto
  have f: "\<exists>new. listings s2 = listings s @ new
        \<and> distinct (map item_id new)
        \<and> set (map item_id new) \<inter> cells (heap s) (item_ids c) = {}
        \<and> cells (heap s2) (item_ids c) = cells (heap s) (item_ids c) \<union> set (map item_id new)"
    using a b d e by blast
  from assms have g: "\<forall>a. a \<noteq> item_ids c \<longrightarrow> cells (heap s2) a = cells (heap s) a"
    "next_free (heap s2) = next_free (heap s)" "max_listings s2 \<le> max_listings s"
    "int (length (listings s)) \<le> limit c \<longrightarrow> int (length (listings s2)) \<le> limit c"
    unfolding extends_def by auto
  from f g show ?thesis unfolding extends_def by blast
qed

lemma extends_tick: "extends c s (s\<lparr>tick := t\<rparr>)"
  by (simp add: extends_def)

lemma extends_decrement: "extends c s (s\<lparr>max_listings := max_listings s - 1, tick := t\<rparr>)"
  by (simp add: extends_def)

lemma extends_decrement': "extends c s (s\<lparr>max_listings := max_listings s - 1\<rparr>)"
  by (simp add: extends_def)

lemma extends_accept:
  assumes "int (length (listings s)) \<noteq> limit c"
    and "item_id l \<notin> cells (heap s) (item_ids c)"
  shows "extends c s (s\<lparr>listings := listings s @ [l],
            heap := set_add (heap s) (item_ids c) (item_id l), tick := t\<rparr>)"
  unfolding extends_def
proof (intro conjI)
  show "\<exists>new. listings (s\<lparr>listings := listings s @ [l],
            heap := set_add (heap s) (item_ids c) (item_id l), tick := t\<rparr>) = listings s @ new
        \<and> distinct (map item_id new)
        \<and> set (map item_id new) \<inter> cells (heap s) (item_ids c) = {}
        \<and> cells (heap (s\<lparr>listings := listings s @ [l],
            heap := set_add (heap s) (item_ids c) (item_id l), tick := t\<rparr>)) (item_ids c)
           = cells (heap s) (item_ids c) \<union> set (map item_id new)"
    using assms(2) by (intro exI [of _ "[l]"]) (simp add: set_add_def)
qed (use assms(1) in \<open>auto simp: set_add_def\<close>)

lemma item_id_make_listing [simp]:
  "item_id (make_listing p cid r d ts) = itemId r"
  by (simp add: make_listing_def)

lemma extends_accept_raw:
  assumes "int (length (listings s)) \<noteq> limit c"
    and "itemId r \<notin> cells (heap s) (item_ids c)"
  shows "extends c s (s\<lparr>listings := listings s @ [make_listing p cid r d ts],
            heap := set_add (heap s) (item_ids c) (itemId r), tick := t\<rparr>)"
  using extends_accept [of s c "make_listing p cid r d ts" t] assms by simp

lemma process_res_listing_extends:
  "process_res_listing c cid r s = Some (a, s') \<Longrightarrow> extends c s s'"
  unfolding process_res_listing_def
  by (auto split: if_splits sum.splits option.splits prod.splits
      intro: extends_refl extends_tick extends_decrement extends_decrement' extends_accept_raw)

lemma for_res_listings_extends:
  "for_res_listings c cid rs s = Some (x, s') \<Longrightarrow> extends c s s'"
proof (induction rs arbitrary: s)
  case Nil
  then show ?case by (simp add: extends_refl)
next
  case (Cons r rs)
  from Cons.prems obtain a s1 where p: "process_res_listing c cid r s = Some (a, s1)"
    by (auto split: option.splits)
  note e1 = process_res_listing_extends [OF p]
  show ?case
  proof (cases a)
    case Continue
    with Cons.prems p have "for_res_listings c cid rs s1 = Some (x, s')" by simp
    from extends_trans [OF e1 Cons.IH [OF this]] show ?thesis .
  next
    case LimitReached
    with Cons.prems p e1 show ?thesis by simp
  next
    case (Raises e)
    with Cons.prems p e1 show ?thesis by simp
  qed
qed

lemma page_iteration_extends:
  "page_iteration c cat p s = Some (a, s') \<Longrightarrow> extends c s s'"
  unfolding page_iteration_def
  by (auto split: sum.splits if_splits option.splits prod.splits
      intro: extends_refl extends_tick
      dest!: for_res_listings_extends
      elim: extends_trans [OF extends_tick])

lemma page_loop_extends:
  "page_loop c cat n p s = Some (r, s') \<Longrightarrow> extends c s s'"
proof (induction n arbitrary: p s)
  case 0
  then show ?case by simp
next
  case (Suc n)
  show ?case
  proof (cases "int (length (listings s)) < max_listings s")
    case False
    with Suc.prems show ?thesis by (simp add: extends_refl)
  next
    case True
    with Suc.prems obtain a s1 where it: "page_iteration c cat p s = Some (a, s1)"
      by (auto split: option.splits)
    note e1 = page_iteration_extends [OF it]
    show ?thesis
    proof (cases a)
      case NextPage
      with Suc.prems True it have "page_loop c cat n (Suc p) s1 = Some (r, s')" by simp
      from extends_trans [OF e1 Suc.IH [OF this]] show ?thesis .
    next
      case SamePage
      with Suc.prems True it have "page_loop c cat n p s1 = Some (r, s')" by simp
      from extends_trans [OF e1 Suc.IH [OF this]] show ?thesis .
    next
      case Break
      with Suc.prems True it e1 show ?thesis by simp
    next
      case (Abort x)
      with Suc.prems True it e1 show ?thesis by simp
    qed
  qed
qed

lemma for_categories_extends:
  "for_categories c cats s = Some (r, s') \<Longrightarrow> extends c s s'"
proof (induction cats arbitrary: s)
  case Nil
  then show ?case by (simp add: extends_refl)
next
  case (Cons cat cats)
  from Cons.prems obtain r1 s1 where pl: "page_loop c cat (fuel c) 1 s = Some (r1, s1)"
    by (auto split: option.splits)
  note e1 = page_loop_extends [OF pl]
  show ?case
  proof (cases r1)
    case None
    with Cons.prems pl have "for_categories c cats s1 = Some (r, s')" by simp
    from extends_trans [OF e1 Cons.IH [OF this]] show ?thesis .
  next
    case (Some x)
    with Cons.prems pl e1 show ?thesis by simp
  qed
qed

lemma initial_heap_frame:
  "a < next_free h \<Longrightarrow> cells (fst (initial_heap h existing)) a = cells h a"
  "snd (initial_heap h existing) = next_free h"
  "next_free (fst (initial_heap h existing)) = Suc (next_free h)"
  "cells (fst (initial_heap h existing)) (next_free h) =
     (case existing of Some b \<Rightarrow> cells h b | None \<Rightarrow> {})"
  by (auto simp: initial_heap_def set_copy_def set_new_def split: option.splits)

text \<open>The shape of every finished call.\<close>

lemma get_listings_run_cases:
  assumes "get_listings_run st n h parent lmt existing = Some (r, s)"
  obtains (count_raises) e where "listings_count_response st = Inl e"
      "r = Propagate e" "s = call_state h lmt existing"
    | (subcategories_raise) count e where "listings_count_response st = Inr count"
      "subcategories_response st = Inl e"
      "r = (if e = KeyboardInterrupt then Propagate e else ListingsError [])"
      "s = call_state h (effective_limit lmt count) existing"
    | (crawled) count subs x where "listings_count_response st = Inr count"
      "subcategories_response st = Inr subs"
      "for_categories (call_ctx st n h parent lmt count existing)
         (if length subs > 0 then subs else [parent])
         (call_state h (effective_limit lmt count) existing) = Some (x, s)"
      "r = (case x of Some r' \<Rightarrow> r' | None \<Rightarrow> Return (listings s))"
  using assms unfolding get_listings_run_def
  by (auto split: sum.splits option.splits if_splits)

lemma get_listings_run_frame:
  assumes "get_listings_run st n h parent lmt existing = Some (r, s)" and "a < next_free h"
  shows "cells (heap s) a = cells h a"
  using assms(1)
proof (cases rule: get_listings_run_cases)
  case (count_raises e)
  with assms(2) show ?thesis by (simp add: call_state_def initial_heap_frame)
next
  case (subcategories_raise count e)
  with assms(2) show ?thesis by (simp add: call_state_def initial_heap_frame)
next
  case (crawled count subs x)
  from for_categories_extends [OF crawled(3)] assms(2)
  have "cells (heap s) a = cells (heap (call_state h (effective_limit lmt count) existing)) a"
    by (simp add: extends_def call_ctx_def initial_heap_frame)
  with assms(2) show ?thesis by (simp add: call_state_def initial_heap_frame)
qed

text \<open>
  Claim C9.  Whatever the site does and however the call ends (a return, a
  \<^verbatim>\<open>ListingsError\<close> or \<^verbatim>\<open>ListingsInterrupt\<close> with the partial list, another exception),
  the set object that the caller passed as \<^verbatim>\<open>existing_item_ids\<close> holds after the call
  what it held before, and so does every other set object of the caller: the call
  works on a copy at a new address.
\<close>

theorem get_listings_keeps_existing_item_ids:
  assumes "get_listings st n h parent lmt (Some a) = Some (r, h')" and "a < next_free h"
  shows "cells h' a = cells h a \<and> (\<forall>b < next_free h. cells h' b = cells h b)"
proof -
  from assms(1) obtain s where run: "get_listings_run st n h parent lmt (Some a) = Some (r, s)"
    and h': "h' = heap s"
    by (auto simp: get_listings_def)
  from get_listings_run_frame [OF run] assms(2) h' show ?thesis by simp
qed

lemma mismatch_run:
  "case get_listings mismatch_site 5 example_heap example_parent 2 (Some 0) of
      Some (ListingsError ls, h') \<Rightarrow> map item_id ls = [''m1''] \<and> ''m1'' \<in> cells h' 1
    | _ \<Rightarrow> False"
  by code_simp

theorem get_listings_keeps_existing_item_ids_witness:
  "\<exists>ls h'. get_listings mismatch_site 5 example_heap example_parent 2 (Some 0)
        = Some (ListingsError ls, h')
     \<and> map item_id ls = [''m1''] \<and> cells h' 0 = {''m9''} \<and> ''m1'' \<in> cells h' 1"
proof -
  obtain r h' where run:
    "get_listings mismatch_site 5 example_heap example_parent 2 (Some 0) = Some (r, h')"
    using mismatch_run
    by (cases "get_listings mismatch_site 5 example_heap example_parent 2 (Some 0)") auto
  with mismatch_run obtain ls where r: "r = ListingsError ls"
    and rest: "map item_id ls = [''m1'']" "''m1'' \<in> cells h' 1"
    by (cases r) simp_all
  have "0 < next_free example_heap" by (simp add: example_heap_def)
  from get_listings_keeps_existing_item_ids [OF run this]
  have "cells h' 0 = {''m9''}" by (simp add: example_heap_def)
  with run r rest show ?thesis by simp
qed

section \<open>Bound on the length\<close>

lemma page_loop_not_entered:
  "\<not> int (length (listings s)) < max_listings s \<Longrightarrow> page_loop c cat n p s = Some (r, s')
   \<Longrightarrow> r = None \<and> s' = s"
  by (cases n) auto

lemma for_categories_not_entered:
  "\<not> int (length (listings s)) < max_listings s \<Longrightarrow> for_categories c cats s = Some (r, s')
   \<Longrightarrow> r = None \<and> s' = s"
proof (induction cats)
  case Nil
  then show ?case by simp
next
  case (Cons cat cats)
  from Cons.prems(2) obtain r1 s1 where pl: "page_loop c cat (fuel c) 1 s = Some (r1, s1)"
    by (auto split: option.splits)
  from page_loop_not_entered [OF Cons.prems(1) pl] have "r1 = None" "s1 = s" by simp_all
  with Cons.prems(2) pl have "for_categories c cats s = Some (r, s')" by simp
  with Cons.IH Cons.prems(1) show ?case by simp
qed

lemma handle_exception_carries:
  "handle_exception e ls = Abort r \<Longrightarrow>
     r = ListingsError ls \<or> r = ListingsInterrupt ls \<or> r = Propagate (WebDriverException False)"
  by (cases e) (auto simp: handle_exception_def split: if_splits)

lemma page_iteration_carries:
  "page_iteration c cat p s = Some (Abort r, s') \<Longrightarrow>
     r = ListingsError (listings s') \<or> r = ListingsInterrupt (listings s')
     \<or> r = Propagate (WebDriverException False)"
  unfolding page_iteration_def
  by (auto split: sum.splits if_splits option.splits prod.splits
      dest: handle_exception_carries)

lemma page_loop_carries:
  "page_loop c cat n p s = Some (Some r, s') \<Longrightarrow>
     r = ListingsError (listings s') \<or> r = ListingsInterrupt (listings s')
     \<or> r = Propagate (WebDriverException False)"
proof (induction n arbitrary: p s)
  case 0
  then show ?case by simp
next
  case (Suc n)
  show ?case
  proof (cases "int (length (listings s)) < max_listings s")
    case False
    with Suc.prems show ?thesis by simp
  next
    case True
    with Suc.prems obtain a s1 where it: "page_iteration c cat p s = Some (a, s1)"
      by (auto split: option.splits)
    show ?thesis
    proof (cases a)
      case NextPage
      with Suc.prems True it have "page_loop c cat n (Suc p) s1 = Some (Some r, s')" by simp
      from Suc.IH [OF this] show ?thesis .
    next
      case SamePage
      with Suc.prems True it have "page_loop c cat n p s1 = Some (Some r, s')" by simp
      from Suc.IH [OF this] show ?thesis .
    next
      case Break
      with Suc.prems True it show ?thesis by simp
    next
      case (Abort x)
      with Suc.prems True it have "x = r" "s1 = s'" by simp_all
      with it Abort page_iteration_carries [of c cat p s r s'] show ?thesis by simp
    qed
  qed
qed

lemma for_categories_carries:
  "for_categories c cats s = Some (Some r, s') \<Longrightarrow>
     r = ListingsError (listings s') \<or> r = ListingsInterrupt (listings s')
     \<or> r = Propagate (WebDriverException False)"
proof (induction cats arbitrary: s)
  case Nil
  then show ?case by simp
next
  case (Cons cat cats)
  from Cons.prems obtain r1 s1 where pl: "page_loop c cat (fuel c) 1 s = Some (r1, s1)"
    by (auto split: option.splits)
  show ?case
  proof (cases r1)
    case None
    with Cons.prems pl have "for_categories c cats s1 = Some (Some r, s')" by simp
    from Cons.IH [OF this] show ?thesis .
  next
    case (Some x)
    with Cons.prems pl have "x = r" "s1 = s'" by simp_all
    with pl Some page_loop_carries [of c cat "fuel c" 1 s r s'] show ?thesis by simp
  qed
qed

lemma get_listings_run_carries:
  assumes "get_listings_run st n h parent lmt existing = Some (r, s)"
  shows "r = Return (listings s) \<or> r = ListingsError (listings s)
     \<or> r = ListingsInterrupt (listings s) \<or> (\<exists>e. r = Propagate e)"
  using assms
proof (cases rule: get_listings_run_cases)
  case (count_raises e)
  then show ?thesis by simp
next
  case (subcategories_raise count e)
  then show ?thesis by (simp add: call_state_def)
next
  case (crawled count subs x)
  show ?thesis
  proof (cases x)
    case None
    with crawled(4) show ?thesis by simp
  next
    case (Some r')
    with crawled(3,4) for_categories_carries [of _ _ _ r' s] show ?thesis by auto
  qed
qed

text \<open>
  However a call ends, the list it has accumulated (the list it returns, or the one its
  \<^verbatim>\<open>ListingsError\<close> or \<^verbatim>\<open>ListingsInterrupt\<close> carries) is never longer than
  \<^verbatim>\<open>limit\<close> as capped on entry (\<open>effective_limit\<close>), and \<^verbatim>\<open>max_listings\<close> never
  exceeds that value.
\<close>

lemma get_listings_length_bounded:
  assumes "get_listings_run st n h parent lmt existing = Some (r, s)"
    and "listings_count_response st = Inr count"
  shows "int (length (listings s)) \<le> max 0 (effective_limit lmt count)
     \<and> max_listings s \<le> effective_limit lmt count
     \<and> (r = Return (listings s) \<or> r = ListingsError (listings s)
        \<or> r = ListingsInterrupt (listings s) \<or> (\<exists>e. r = Propagate e))"
proof -
  have bound: "int (length (listings s)) \<le> max 0 (effective_limit lmt count)
     \<and> max_listings s \<le> effective_limit lmt count"
    using assms(1)
  proof (cases rule: get_listings_run_cases)
    case (count_raises e)
    with assms(2) show ?thesis by simp
  next
    case (subcategories_raise count' e)
    with assms(2) show ?thesis by (simp add: call_state_def)
  next
    case (crawled count' subs x)
    with assms(2) have cc: "count' = count" by simp
    let ?c = "call_ctx st n h parent lmt count existing"
    let ?s1 = "call_state h (effective_limit lmt count) existing"
    from crawled(3) cc have fc: "for_categories ?c (if length subs > 0 then subs else [parent]) ?s1
        = Some (x, s)" by simp
    note ext = for_categories_extends [OF fc]
    show ?thesis
    proof (cases "0 < effective_limit lmt count")
      case True
      with ext show ?thesis
        by (simp add: extends_def call_state_def call_ctx_def)
    next
      case False
      then have "\<not> int (length (listings ?s1)) < max_listings ?s1"
        by (simp add: call_state_def)
      from for_categories_not_entered [OF this fc] have "s = ?s1" by simp
      with False show ?thesis by (simp add: call_state_def)
    qed
  qed
  with get_listings_run_carries [OF assms(1)] show ?thesis by blast
qed


section \<open>Skipping known listings\<close>

lemma for_res_listings_at_limit:
  "int (length (listings s)) = limit c \<Longrightarrow> for_res_listings c cid rs s = Some (None, s)"
  by (cases rs) (simp_all add: process_res_listing_def)

lemma process_res_listing_LimitReached:
  "process_res_listing c cid r s = Some (LimitReached, s')
   \<Longrightarrow> s' = s \<and> int (length (listings s)) = limit c"
  unfolding process_res_listing_def
  by (auto split: if_splits sum.splits option.splits prod.splits)

lemma for_res_listings_append:
  "for_res_listings c cid (xs @ ys) s =
     (case for_res_listings c cid xs s of
        Some (None, s') \<Rightarrow> for_res_listings c cid ys s'
      | other \<Rightarrow> other)"
proof (induction xs arbitrary: s)
  case Nil
  show ?case by simp
next
  case (Cons x xs)
  show ?case
  proof (cases "process_res_listing c cid x s")
    case None
    then show ?thesis by simp
  next
    case (Some as)
    obtain a s1 where as: "as = (a, s1)" by (cases as)
    show ?thesis
    proof (cases a)
      case Continue
      with Some as Cons.IH [of s1] show ?thesis by simp
    next
      case LimitReached
      with Some as process_res_listing_LimitReached [of c cid x s s1]
      have "s1 = s" "int (length (listings s)) = limit c" by simp_all
      with Some as LimitReached for_res_listings_at_limit [of s c cid ys]
      show ?thesis by simp
    next
      case (Raises e)
      with Some as show ?thesis by simp
    qed
  qed
qed

lemma process_known:
  assumes "int (length (listings s)) \<noteq> limit c" and "itemId r \<noteq> []"
    and "hd (itemId r) \<noteq> MARKTPLAATS_ADVERTISEMENT_PREFIX"
    and "itemId r \<in> cells (heap s) (item_ids c)"
  shows "process_res_listing c cid r s =
     Some (Continue, if limit c = listings_count c
                     then s\<lparr>max_listings := max_listings s - 1\<rparr> else s)"
proof -
  from assms(2) obtain ch cs where "itemId r = ch # cs" by (cases "itemId r") auto
  with assms show ?thesis
    by (simp add: process_res_listing_def index_def)
qed

lemma effective_limit_eq_count:
  "effective_limit lmt count = count \<longleftrightarrow> lmt = 0 \<or> count \<le> lmt"
  by (auto simp: effective_limit_def)

lemma known_items_skipped:
  assumes "int (length (listings s)) \<noteq> limit c"
    and "\<forall>r \<in> set rs. itemId r \<noteq> [] \<and> hd (itemId r) \<noteq> MARKTPLAATS_ADVERTISEMENT_PREFIX
           \<and> itemId r \<in> cells (heap s) (item_ids c)"
  shows "for_res_listings c cid rs s =
     Some (None, s\<lparr>max_listings :=
        (if limit c = listings_count c then max_listings s - int (length rs)
         else max_listings s)\<rparr>)"
  using assms
proof (induction rs arbitrary: s)
  case Nil
  then show ?case by simp
next
  case (Cons r rs)
  let ?s1 = "if limit c = listings_count c then s\<lparr>max_listings := max_listings s - 1\<rparr> else s"
  from Cons.prems have p: "process_res_listing c cid r s = Some (Continue, ?s1)"
    by (intro process_known) simp_all
  have 1: "int (length (listings ?s1)) \<noteq> limit c" using Cons.prems(1) by simp
  have 2: "\<forall>r \<in> set rs. itemId r \<noteq> [] \<and> hd (itemId r) \<noteq> MARKTPLAATS_ADVERTISEMENT_PREFIX
           \<and> itemId r \<in> cells (heap ?s1) (item_ids c)"
    using Cons.prems(2) by simp
  from Cons.IH [OF 1 2] p show ?case by simp
qed

text \<open>
  Claim C2.  \<open>rs\<close> are raw listings that are all skipped as known (not sponsored, id
  in \<^verbatim>\<open>item_ids\<close>), met while the list is not at \<^verbatim>\<open>limit\<close>.  Each of them lowers
  \<^verbatim>\<open>max_listings\<close> by one if \<^verbatim>\<open>limit == listings_count\<close>, and none changes anything
  otherwise.  With \<open>lmt\<close> the limit that the caller gave, \<^verbatim>\<open>limit == listings_count\<close>
  holds exactly when \<open>lmt\<close> is 0 or at least the category's count; for a cap strictly
  between 0 and the count the state is unchanged.
\<close>

theorem known_item_skip_decrements_only_without_cap:
  assumes "limit c = effective_limit lmt (listings_count c)"
    and "int (length (listings s)) \<noteq> limit c"
    and "\<forall>r \<in> set rs. itemId r \<noteq> [] \<and> hd (itemId r) \<noteq> MARKTPLAATS_ADVERTISEMENT_PREFIX
           \<and> itemId r \<in> cells (heap s) (item_ids c)"
  shows "for_res_listings c cid rs s =
       Some (None, s\<lparr>max_listings :=
          (if limit c = listings_count c then max_listings s - int (length rs)
           else max_listings s)\<rparr>)
     \<and> (limit c = listings_count c \<longleftrightarrow> lmt = 0 \<or> listings_count c \<le> lmt)
     \<and> (0 < lmt \<and> lmt < listings_count c \<longrightarrow>
          for_res_listings c cid rs s = Some (None, s))"
proof (intro conjI impI)
  show a: "for_res_listings c cid rs s =
       Some (None, s\<lparr>max_listings :=
          (if limit c = listings_count c then max_listings s - int (length rs)
           else max_listings s)\<rparr>)"
    using known_items_skipped [OF assms(2,3)] .
  show b: "limit c = listings_count c \<longleftrightarrow> lmt = 0 \<or> listings_count c \<le> lmt"
    using assms(1) effective_limit_eq_count [of lmt "listings_count c"] by simp
  assume "0 < lmt \<and> lmt < listings_count c"
  with b have "limit c \<noteq> listings_count c" by simp
  with a show "for_res_listings c cid rs s = Some (None, s)" by simp
qed

theorem known_item_skip_decrements_only_without_cap_witness:
  "(\<exists>s'. for_res_listings uncapped_ctx 322 [known_raw] uncapped_state = Some (None, s')
        \<and> max_listings uncapped_state = 10 \<and> max_listings s' = 9)
   \<and> for_res_listings capped_ctx 322 [known_raw] capped_state = Some (None, capped_state)
   \<and> max_listings capped_state = 2"
proof (intro conjI)
  have k: "itemId known_raw \<noteq> [] \<and> hd (itemId known_raw) \<noteq> MARKTPLAATS_ADVERTISEMENT_PREFIX"
    by (simp add: known_raw_def example_raw_def MARKTPLAATS_ADVERTISEMENT_PREFIX_def)
  have u1: "limit uncapped_ctx = effective_limit 0 (listings_count uncapped_ctx)"
    by (simp add: uncapped_ctx_def call_ctx_def)
  have u2: "int (length (listings uncapped_state)) \<noteq> limit uncapped_ctx"
    by (simp add: uncapped_ctx_def uncapped_state_def call_ctx_def call_state_def
        effective_limit_def)
  have u3: "\<forall>r \<in> set [known_raw]. itemId r \<noteq> []
      \<and> hd (itemId r) \<noteq> MARKTPLAATS_ADVERTISEMENT_PREFIX
      \<and> itemId r \<in> cells (heap uncapped_state) (item_ids uncapped_ctx)"
    using k by (simp add: uncapped_ctx_def uncapped_state_def call_ctx_def call_state_def
        initial_heap_def set_copy_def example_heap_def known_raw_def example_raw_def)
  have u4: "limit uncapped_ctx = listings_count uncapped_ctx"
    by (simp add: uncapped_ctx_def call_ctx_def effective_limit_def)
  have u5: "max_listings uncapped_state = 10"
    by (simp add: uncapped_state_def call_state_def)
  from known_item_skip_decrements_only_without_cap [OF u1 u2 u3, of 322] u4 u5
  show "\<exists>s'. for_res_listings uncapped_ctx 322 [known_raw] uncapped_state = Some (None, s')
        \<and> max_listings uncapped_state = 10 \<and> max_listings s' = 9"
    by simp
  have c1: "limit capped_ctx = effective_limit 2 (listings_count capped_ctx)"
    by (simp add: capped_ctx_def call_ctx_def)
  have c2: "int (length (listings capped_state)) \<noteq> limit capped_ctx"
    by (simp add: capped_ctx_def capped_state_def call_ctx_def call_state_def
        effective_limit_def)
  have c3: "\<forall>r \<in> set [known_raw]. itemId r \<noteq> []
      \<and> hd (itemId r) \<noteq> MARKTPLAATS_ADVERTISEMENT_PREFIX
      \<and> itemId r \<in> cells (heap capped_state) (item_ids capped_ctx)"
    using k by (simp add: capped_ctx_def capped_state_def call_ctx_def call_state_def
        initial_heap_def set_copy_def example_heap_def known_raw_def example_raw_def)
  have c4: "listings_count capped_ctx = 10"
    by (simp add: capped_ctx_def call_ctx_def)
  from known_item_skip_decrements_only_without_cap [OF c1 c2 c3, of 322] c4
  show "for_res_listings capped_ctx 322 [known_raw] capped_state = Some (None, capped_state)"
    by simp
  show "max_listings capped_state = 2"
    by (simp add: capped_state_def call_state_def)
qed

section \<open>Exceptions raised by a raw listing\<close>

lemma raising_item_page_loop:
  assumes url: "get_url_with_options (cat_url cat) p = Inr u"
    and page: "page_response (site c) (tick s) u = Inr (pre @ bad # rest)"
    and pre: "for_res_listings c (cat_id cat) pre (s\<lparr>tick := Suc (tick s)\<rparr>) = Some (None, s')"
    and item: "process_res_listing c (cat_id cat) bad s' = Some (Raises e, s'')"
    and h: "handle_exception e (listings s'') = Abort r"
    and loop: "int (length (listings s)) < max_listings s"
  shows "page_loop c cat (Suc n) p s = Some (Some r, s'')"
proof -
  have "for_res_listings c (cat_id cat) (pre @ bad # rest) (s\<lparr>tick := Suc (tick s)\<rparr>)
      = Some (Some e, s'')"
    using pre item by (simp add: for_res_listings_append)
  with url page h have "page_iteration c cat p s = Some (Abort r, s'')"
    by (simp add: page_iteration_def)
  with loop show ?thesis by simp
qed

lemma abort_for_categories:
  "page_loop c cat (fuel c) 1 s = Some (Some r, s')
   \<Longrightarrow> for_categories c (cat # cats) s = Some (Some r, s')"
  by simp

lemma abort_get_listings_run:
  assumes "listings_count_response st = Inr count" and "subcategories_response st = Inr subs"
    and "for_categories (call_ctx st n h parent lmt count existing)
           (if length subs > 0 then subs else [parent])
           (call_state h (effective_limit lmt count) existing) = Some (Some r, s')"
  shows "get_listings_run st n h parent lmt existing = Some (r, s')"
  using assms by (simp add: get_listings_run_def)

lemma raising_item_aborts:
  assumes url: "get_url_with_options (cat_url cat) p = Inr u"
    and page: "page_response (site c) (tick s) u = Inr (pre @ bad # rest)"
    and pre: "for_res_listings c (cat_id cat) pre (s\<lparr>tick := Suc (tick s)\<rparr>) = Some (None, s')"
    and item: "process_res_listing c (cat_id cat) bad s' = Some (Raises e, s'')"
    and h: "handle_exception e (listings s'') = Abort r"
    and loop: "int (length (listings s)) < max_listings s"
  shows "page_loop c cat (Suc n) p s = Some (Some r, s'')
     \<and> (fuel c = Suc n \<and> p = 1 \<longrightarrow>
          for_categories c (cat # cats) s = Some (Some r, s''))
     \<and> (\<forall>st h parent lmt existing count subs.
          listings_count_response st = Inr count \<and> subcategories_response st = Inr subs
          \<and> (if length subs > 0 then subs else [parent]) = cat # cats
          \<and> c = call_ctx st (Suc n) h parent lmt count existing
          \<and> s = call_state h (effective_limit lmt count) existing \<and> p = 1
          \<longrightarrow> get_listings_run st (Suc n) h parent lmt existing = Some (r, s''))"
proof (intro conjI impI allI)
  show pl: "page_loop c cat (Suc n) p s = Some (Some r, s'')"
    by (rule raising_item_page_loop [OF assms])
  {
    assume "fuel c = Suc n \<and> p = 1"
    with pl show "for_categories c (cat # cats) s = Some (Some r, s'')"
      by (simp del: page_loop.simps)
  }
  fix st h parent lmt existing count subs
  assume a: "listings_count_response st = Inr count \<and> subcategories_response st = Inr subs
          \<and> (if length subs > 0 then subs else [parent]) = cat # cats
          \<and> c = call_ctx st (Suc n) h parent lmt count existing
          \<and> s = call_state h (effective_limit lmt count) existing \<and> p = 1"
  then have f: "fuel c = Suc n" by (simp add: call_ctx_def)
  with pl a have "for_categories c (cat # cats) s = Some (Some r, s'')"
    by (simp del: page_loop.simps)
  with a have "for_categories (call_ctx st (Suc n) h parent lmt count existing)
           (if length subs > 0 then subs else [parent])
           (call_state h (effective_limit lmt count) existing) = Some (Some r, s'')"
    by simp
  with a show "get_listings_run st (Suc n) h parent lmt existing = Some (r, s'')"
    by (intro abort_get_listings_run [of st count subs]) simp_all
qed

text \<open>
  Claim C4.  The page loop is at any page \<open>p\<close> of any category \<open>cat\<close>, in any state \<open>s\<close>
  in which it still runs; the page fetched holds the raw listings \<open>pre\<close>, then \<open>bad\<close>.
  \<open>pre\<close> are processed without exception and leave the state \<open>s'\<close>, not yet at
  \<^verbatim>\<open>limit\<close>; \<open>bad\<close> is not sponsored, not known, and reports another category than
  the one crawled.  Then the page loop ends with \<^verbatim>\<open>ListingsError\<close> carrying exactly
  the listings of \<open>s'\<close>; so does the loop over the categories when this is its first
  page, and so does the whole call when this is its first category.
\<close>

theorem unexpected_category_id_aborts:
  assumes url: "get_url_with_options (cat_url cat) p = Inr u"
    and page: "page_response (site c) (tick s) u = Inr (pre @ bad # rest)"
    and pre: "for_res_listings c (cat_id cat) pre (s\<lparr>tick := Suc (tick s)\<rparr>) = Some (None, s')"
    and reached: "int (length (listings s')) \<noteq> limit c"
    and bad: "itemId bad \<noteq> []" "hd (itemId bad) \<noteq> MARKTPLAATS_ADVERTISEMENT_PREFIX"
      "itemId bad \<notin> cells (heap s') (item_ids c)" "categoryId bad \<noteq> cat_id cat"
    and loop: "int (length (listings s)) < max_listings s"
  shows "page_loop c cat (Suc n) p s = Some (Some (ListingsError (listings s')), s')
     \<and> (fuel c = Suc n \<and> p = 1 \<longrightarrow>
          for_categories c (cat # cats) s = Some (Some (ListingsError (listings s')), s'))
     \<and> (\<forall>st h parent lmt existing count subs.
          listings_count_response st = Inr count \<and> subcategories_response st = Inr subs
          \<and> (if length subs > 0 then subs else [parent]) = cat # cats
          \<and> c = call_ctx st (Suc n) h parent lmt count existing
          \<and> s = call_state h (effective_limit lmt count) existing \<and> p = 1
          \<longrightarrow> get_listings_run st (Suc n) h parent lmt existing
              = Some (ListingsError (listings s'), s'))"
proof -
  from bad(1) obtain ch cs where "itemId bad = ch # cs" by (cases "itemId bad") auto
  with reached bad have item: "process_res_listing c (cat_id cat) bad s'
      = Some (Raises (UnexpectedCategoryId (categoryId bad) (cat_id cat)), s')"
    by (simp add: process_res_listing_def index_def)
  have h: "handle_exception (UnexpectedCategoryId (categoryId bad) (cat_id cat)) (listings s')
      = Abort (ListingsError (listings s'))"
    by (simp add: handle_exception_def)
  from raising_item_aborts [OF url page pre item h loop] show ?thesis .
qed

text \<open>
  Claim C10.  Indexing the first character of an \<^verbatim>\<open>itemId\<close> gives a character when
  the id is not empty, and raises \<^verbatim>\<open>IndexError\<close> when it is.  The page loop is at any
  page \<open>p\<close> of any category \<open>cat\<close>, in any state \<open>s\<close> in which it still runs; the page
  fetched holds the raw listings \<open>pre\<close>, then \<open>bad\<close>, whose \<^verbatim>\<open>itemId\<close> is empty.
  \<open>pre\<close> are processed without exception and leave the state \<open>s'\<close>, not yet at
  \<^verbatim>\<open>limit\<close>.  Then \<open>bad\<close> is not skipped: the page loop ends with \<^verbatim>\<open>ListingsError\<close>
  carrying exactly the listings of \<open>s'\<close>; so does the loop over the categories when
  this is its first page, and so does the whole call when this is its first category.
\<close>

theorem empty_item_id_aborts:
  assumes url: "get_url_with_options (cat_url cat) p = Inr u"
    and page: "page_response (site c) (tick s) u = Inr (pre @ bad # rest)"
    and pre: "for_res_listings c (cat_id cat) pre (s\<lparr>tick := Suc (tick s)\<rparr>) = Some (None, s')"
    and reached: "int (length (listings s')) \<noteq> limit c"
    and bad: "itemId bad = []"
    and loop: "int (length (listings s)) < max_listings s"
  shows "(itemId r \<noteq> [] \<longrightarrow> index (itemId r) 0 = Inr (hd (itemId r)))
     \<and> index (itemId bad) 0 = Inl IndexError
     \<and> process_res_listing c (cat_id cat) bad s' = Some (Raises IndexError, s')
     \<and> page_loop c cat (Suc n) p s = Some (Some (ListingsError (listings s')), s')
     \<and> (fuel c = Suc n \<and> p = 1 \<longrightarrow>
          for_categories c (cat # cats) s = Some (Some (ListingsError (listings s')), s'))
     \<and> (\<forall>st h parent lmt existing count subs.
          listings_count_response st = Inr count \<and> subcategories_response st = Inr subs
          \<and> (if length subs > 0 then subs else [parent]) = cat # cats
          \<and> c = call_ctx st (Suc n) h parent lmt count existing
          \<and> s = call_state h (effective_limit lmt count) existing \<and> p = 1
          \<longrightarrow> get_listings_run st (Suc n) h parent lmt existing
              = Some (ListingsError (listings s'), s'))"
proof -
  from reached bad have item: "process_res_listing c (cat_id cat) bad s'
      = Some (Raises IndexError, s')"
    by (simp add: process_res_listing_def index_def)
  have h: "handle_exception IndexError (listings s') = Abort (ListingsError (listings s'))"
    by (simp add: handle_exception_def)
  have total: "itemId r \<noteq> [] \<longrightarrow> index (itemId r) 0 = Inr (hd (itemId r))"
    by (cases "itemId r") (simp_all add: index_def)
  have raises: "index (itemId bad) 0 = Inl IndexError"
    using bad by (simp add: index_def)
  from raising_item_aborts [OF url page pre item h loop] item total raises
  show ?thesis by simp
qed

lemma example_page_url: "get_url_with_options (cat_url example_parent) 1 = Inr example_page_url"
  by code_simp

lemma capped_state_loop: "int (length (listings capped_state)) < max_listings capped_state"
  by (simp add: capped_state_def call_state_def)

lemma capped_state_eq: "capped_state = call_state example_heap (effective_limit 2 10) (Some 0)"
  by (simp add: capped_state_def effective_limit_def)

lemma mismatch_page:
  "page_response (site mismatch_ctx) (tick capped_state) example_page_url
     = Inr ([example_raw ''m1'' 322] @ example_raw ''m2'' 321 # [])"
  by code_simp

lemma mismatch_pre:
  "case for_res_listings mismatch_ctx (cat_id example_parent) [example_raw ''m1'' 322]
          (capped_state\<lparr>tick := Suc (tick capped_state)\<rparr>) of
     Some (None, s') \<Rightarrow> int (length (listings s')) \<noteq> limit mismatch_ctx
        \<and> ''m2'' \<notin> cells (heap s') (item_ids mismatch_ctx)
        \<and> map item_id (listings s') = [''m1'']
   | _ \<Rightarrow> False"
  by code_simp

theorem unexpected_category_id_aborts_witness:
  "\<exists>ls s. get_listings_run mismatch_site 5 example_heap example_parent 2 (Some 0)
       = Some (ListingsError ls, s)
     \<and> ls = listings s \<and> map item_id ls = [''m1'']"
proof -
  obtain x s' where pre: "for_res_listings mismatch_ctx (cat_id example_parent)
      [example_raw ''m1'' 322] (capped_state\<lparr>tick := Suc (tick capped_state)\<rparr>) = Some (x, s')"
    using mismatch_pre
    by (cases "for_res_listings mismatch_ctx (cat_id example_parent)
      [example_raw ''m1'' 322] (capped_state\<lparr>tick := Suc (tick capped_state)\<rparr>)") auto
  with mismatch_pre have x: "x = None" and s': "int (length (listings s')) \<noteq> limit mismatch_ctx"
    "''m2'' \<notin> cells (heap s') (item_ids mismatch_ctx)" "map item_id (listings s') = [''m1'']"
    by (cases x; simp)+
  have bad: "itemId (example_raw ''m2'' 321) \<noteq> []"
    "hd (itemId (example_raw ''m2'' 321)) \<noteq> MARKTPLAATS_ADVERTISEMENT_PREFIX"
    "itemId (example_raw ''m2'' 321) \<notin> cells (heap s') (item_ids mismatch_ctx)"
    "categoryId (example_raw ''m2'' 321) \<noteq> cat_id example_parent"
    using s'(2)
    by (simp_all add: example_raw_def MARKTPLAATS_ADVERTISEMENT_PREFIX_def example_parent_def)
  have call: "listings_count_response mismatch_site = Inr 10
      \<and> subcategories_response mismatch_site = Inr []
      \<and> (if length ([] :: category list) > 0 then [] else [example_parent]) = example_parent # []
      \<and> mismatch_ctx = call_ctx mismatch_site (Suc 4) example_heap example_parent 2 10 (Some 0)
      \<and> capped_state = call_state example_heap (effective_limit 2 10) (Some 0) \<and> (1::nat) = 1"
    by (simp add: mismatch_site_def example_site_def mismatch_ctx_def capped_state_eq)
  from unexpected_category_id_aborts [OF example_page_url mismatch_page pre [unfolded x] s'(1)
      bad capped_state_loop, of 4 "[]"] call
  have "get_listings_run mismatch_site (Suc 4) example_heap example_parent 2 (Some 0)
      = Some (ListingsError (listings s'), s')"
    by blast
  with s'(3) show ?thesis by simp
qed

lemma empty_id_page:
  "page_response (site empty_id_ctx) (tick capped_state) example_page_url
     = Inr ([example_raw ''m1'' 322] @ example_raw [] 322 # [])"
  by code_simp

lemma empty_id_pre:
  "case for_res_listings empty_id_ctx (cat_id example_parent) [example_raw ''m1'' 322]
          (capped_state\<lparr>tick := Suc (tick capped_state)\<rparr>) of
     Some (None, s') \<Rightarrow> int (length (listings s')) \<noteq> limit empty_id_ctx
        \<and> map item_id (listings s') = [''m1'']
   | _ \<Rightarrow> False"
  by code_simp

theorem empty_item_id_aborts_witness:
  "\<exists>ls s. get_listings_run empty_id_site 5 example_heap example_parent 2 (Some 0)
       = Some (ListingsError ls, s)
     \<and> ls = listings s \<and> map item_id ls = [''m1'']"
proof -
  obtain x s' where pre: "for_res_listings empty_id_ctx (cat_id example_parent)
      [example_raw ''m1'' 322] (capped_state\<lparr>tick := Suc (tick capped_state)\<rparr>) = Some (x, s')"
    using empty_id_pre
    by (cases "for_res_listings empty_id_ctx (cat_id example_parent)
      [example_raw ''m1'' 322] (capped_state\<lparr>tick := Suc (tick capped_state)\<rparr>)") auto
  with empty_id_pre have x: "x = None" and s': "int (length (listings s')) \<noteq> limit empty_id_ctx"
    "map item_id (listings s') = [''m1'']"
    by (cases x; simp)+
  have bad: "itemId (example_raw [] 322) = []"
    by (simp add: example_raw_def)
  have call: "listings_count_response empty_id_site = Inr 10
      \<and> subcategories_response empty_id_site = Inr []
      \<and> (if length ([] :: category list) > 0 then [] else [example_parent]) = example_parent # []
      \<and> empty_id_ctx = call_ctx empty_id_site (Suc 4) example_heap example_parent 2 10 (Some 0)
      \<and> capped_state = call_state example_heap (effective_limit 2 10) (Some 0) \<and> (1::nat) = 1"
    by (simp add: empty_id_site_def example_site_def empty_id_ctx_def capped_state_eq)
  from empty_item_id_aborts [OF example_page_url empty_id_page pre [unfolded x] s'(1)
      bad capped_state_loop, where n = 4 and cats = "[]"] call
  have "get_listings_run empty_id_site (Suc 4) example_heap example_parent 2 (Some 0)
      = Some (ListingsError (listings s'), s')"
    by blast
  with s'(2) show ?thesis by simp
qed

section \<open>Properties of the crawl: reaching the limit\<close>

lemma take_fresh_Nil [simp]: "take_fresh k known [] = []"
  by (cases k) simp_all




lemma finite_fresh_ids [simp]: "finite (fresh_ids known rs)"
  by (simp add: fresh_ids_def)



















section \<open>The example sites\<close>













end
